theory Spec2Isabelle
  imports Complex_Main
begin

section \<open>The simple event writer (examples/simple\_event\_writer.py)\<close>

text \<open>
  The tool wires four collaborators together: an event source, a camera calibrator, the
  image functions \<open>tailcuts_clean\<close> and \<open>hillas_parameters\<close>, and an HDF5 table writer.
  None of the four is defined in the file; they are taken as parameters (the record
  \<open>collaborators\<close> below), each one a function that either raises (\<open>Inl\<close>) or returns.
  What the file itself does (the order of the calls, the arguments it passes, the copy and
  the masked assignment, the rows it writes, where it closes the writer) is translated
  statement by statement.
\<close>

subsection \<open>Data\<close>

datatype error = KeyError | IndexError | AttributeError | Raised string

type_synonym tel_id = int

text \<open>A numpy array of pixel intensities, and a numpy array of booleans.\<close>

type_synonym ndarray = "real list"
type_synonym mask = "bool list"

record camera_geometry =
  camera_name :: string

record camera_description =
  geometry :: camera_geometry

record telescope_description =
  camera :: camera_description

record subarray_description =
  subarray_tel :: "tel_id \<rightharpoonup> telescope_description"

record dl0_container =
  tels_with_data :: "tel_id list"

text \<open>
  The dl1 container of one telescope. Its image is \<open>None\<close> until the calibrator has stored
  an array there.
\<close>

record dl1_camera_container =
  dl1_image :: "ndarray option"

record dl1_container =
  dl1_tel :: "tel_id \<rightharpoonup> dl1_camera_container"

text \<open>
  An event: \<open>event.r0\<close> and \<open>event.mc\<close> are only handed to the writer, so their types are
  left open; \<open>event.dl0.tels_with_data\<close> is iterated (the list is the order of the
  iteration, one entry per telescope), \<open>event.dl1.tel[tel_id].image\<close> is read.
\<close>

record ('r, 'm) event =
  r0 :: 'r
  mc :: 'm
  dl0 :: dl0_container
  dl1 :: dl1_container

text \<open>The event source: the finite sequence of events its iteration yields.\<close>

record ('r, 'm) event_source =
  events :: "('r, 'm) event list"
  max_events :: "nat option"
  subarray :: subarray_description

record camera_calibrator =
  calibrator_subarray :: subarray_description

text \<open>The containers handed to the writer in one \<open>write\<close> call.\<close>

datatype ('r, 'm, 'h) container = R0 'r | MC 'm | Hillas 'h

text \<open>One written row: the group, the table (the key of the call) and the containers.\<close>

type_synonym ('r, 'm, 'h) row = "string \<times> string \<times> ('r, 'm, 'h) container list"

record table_writer =
  filename :: string
  group_name :: string

text \<open>
  What the tool acts on: the table files by path, the set of paths held open by a writer,
  and whether a progress bar has been drawn.
\<close>

record ('r, 'm, 'h) world =
  files :: "string \<rightharpoonup> ('r, 'm, 'h) row list"
  open_files :: "string set"
  progress_bar :: bool

text \<open>The configurable traits of the tool (lines 26 to 37).\<close>

record config =
  infile :: string
  outfile :: string
  progress :: bool

text \<open>The attributes \<open>setup\<close> stores on \<open>self\<close>.\<close>

record ('r, 'm) tool =
  traits :: config
  event_source :: "('r, 'm) event_source"
  calibrator :: camera_calibrator
  writer :: table_writer

subsection \<open>The collaborators\<close>

text \<open>
  The imported functions, as parameters: \<open>EventSource.from_url\<close>, the call of the
  calibrator on an event (\<open>self.calibrator(event)\<close>, which changes the event in place and is
  given here as the event it leaves), \<open>tailcuts_clean\<close> with its two thresholds and
  \<open>hillas_parameters\<close>, the last two pure functions of a geometry and an array.
  \<open>tailcuts_clean\<close> receives whatever the dl1 container holds as its image, an array or
  \<open>None\<close>.
  \<open>create_error\<close> and \<open>write_error\<close> say when the table writer raises: on creating the
  file at a path, and on appending a row to the rows already there.
\<close>

record ('r, 'm, 'h) collaborators =
  from_url :: "string \<Rightarrow> error + ('r, 'm) event_source"
  calibrate :: "camera_calibrator \<Rightarrow> ('r, 'm) event \<Rightarrow> error + ('r, 'm) event"
  tailcuts_clean :: "camera_geometry \<Rightarrow> ndarray option \<Rightarrow> int \<Rightarrow> int \<Rightarrow> error + mask"
  hillas_parameters :: "camera_geometry \<Rightarrow> ndarray \<Rightarrow> error + 'h"
  create_error :: "string \<Rightarrow> error option"
  write_error :: "('r, 'm, 'h) row list \<Rightarrow> string \<Rightarrow> ('r, 'm, 'h) container list \<Rightarrow> error option"

subsection \<open>The table writer\<close>

definition rows_of :: "('r, 'm, 'h) world \<Rightarrow> string \<Rightarrow> ('r, 'm, 'h) row list" where
  "rows_of w path = (case files w path of None \<Rightarrow> [] | Some rs \<Rightarrow> rs)"

text \<open>
  Modelled from the spec: the class \<open>HDF5TableWriter\<close> (ctapipe.io) is not in the file.
  The spec describes it as a scoped-resource sink that appends records into named output
  groups and is closed on completion, and the tool as creating or overwriting the output
  file. With \<open>overwrite\<close> set the file is created empty whatever was there; without it an
  existing file is refused.
\<close>

definition HDF5TableWriter ::
  "('r, 'm, 'h) collaborators \<Rightarrow> string \<Rightarrow> string \<Rightarrow> bool \<Rightarrow> ('r, 'm, 'h) world
    \<Rightarrow> (error + table_writer) \<times> ('r, 'm, 'h) world" where
  "HDF5TableWriter c path grp overwrite w =
     (case create_error c path of
        Some e \<Rightarrow> (Inl e, w)
      | None \<Rightarrow>
          if \<not> overwrite \<and> files w path \<noteq> None then (Inl (Raised ''file exists''), w)
          else (Inr \<lparr>filename = path, group_name = grp\<rparr>,
                w\<lparr>files := (files w)(path \<mapsto> []), open_files := insert path (open_files w)\<rparr>))"

text \<open>
  Modelled from the spec: \<open>HDF5TableWriter.write\<close> and \<open>HDF5TableWriter.close\<close>, of the
  same class. A write appends one row, under the writer's group and the table named by the
  key of the call, or raises and appends nothing; closing releases the file.
\<close>

definition writer_write ::
  "('r, 'm, 'h) collaborators \<Rightarrow> table_writer \<Rightarrow> string \<Rightarrow> ('r, 'm, 'h) container list
    \<Rightarrow> ('r, 'm, 'h) world \<Rightarrow> error option \<times> ('r, 'm, 'h) world" where
  "writer_write c wr table containers w =
     (case write_error c (rows_of w (filename wr)) table containers of
        Some e \<Rightarrow> (Some e, w)
      | None \<Rightarrow>
          (None, w\<lparr>files := (files w)(filename wr \<mapsto>
                      rows_of w (filename wr) @ [(group_name wr, table, containers)])\<rparr>))"

definition writer_close :: "table_writer \<Rightarrow> ('r, 'm, 'h) world \<Rightarrow> ('r, 'm, 'h) world" where
  "writer_close wr w = w\<lparr>open_files := open_files w - {filename wr}\<rparr>"

subsection \<open>numpy and tqdm\<close>

text \<open>
  The arrays a telescope step can reach live in a store, an array's address being its
  index: \<open>image = dl1_tel.image\<close> binds a reference to the array the event holds,
  \<open>image.copy()\<close> allocates a new array, and an indexed assignment changes the array at
  the address it is given.
\<close>

type_synonym addr = nat
type_synonym store = "ndarray list"

definition ndarray_copy :: "addr \<Rightarrow> store \<Rightarrow> addr \<times> store" where
  "ndarray_copy a s = (length s, s @ [s ! a])"

text \<open>\<open>~mask\<close> on a boolean array negates every entry.\<close>

definition invert_mask :: "mask \<Rightarrow> mask" where
  "invert_mask m = map Not m"

text \<open>
  \<open>a[idx] = v\<close> with a boolean index array. An empty index selects nothing, whatever the
  length of the array, and the assignment changes nothing. Otherwise numpy raises
  IndexError when the index has not the length of the array, and stores \<open>v\<close> where the
  index is true when it has.
\<close>

definition setitem_bool :: "addr \<Rightarrow> mask \<Rightarrow> real \<Rightarrow> store \<Rightarrow> error + store" where
  "setitem_bool a idx v s =
     (if idx = [] then Inr s
      else if length idx \<noteq> length (s ! a) then Inl IndexError
      else Inr (s[a := map (\<lambda>(x, b). if b then v else x) (zip (s ! a) idx)]))"

text \<open>
  \<open>~\<close> on a Python \<open>bool\<close> is the integer complement: \<open>~True = -2\<close> and \<open>~False = -1\<close>.
\<close>

definition py_invert :: "bool \<Rightarrow> int" where
  "py_invert b = - (if b then 1 else 0) - 1"

text \<open>
  \<open>tqdm(iterable, desc, total, disable)\<close> hands the iterable through; it draws a bar
  unless \<open>disable\<close> is true in Python's sense, which for an integer means non-zero.
\<close>

definition tqdm ::
  "'a list \<Rightarrow> nat option \<Rightarrow> int \<Rightarrow> ('r, 'm, 'h) world \<Rightarrow> 'a list \<times> ('r, 'm, 'h) world" where
  "tqdm iterable n_total disable w =
     (iterable, if disable \<noteq> 0 then w else w\<lparr>progress_bar := True\<rparr>)"

subsection \<open>The tool\<close>

text \<open>
  \<open>setup\<close>, lines 49 to 64 (the name alone is a keyword here). \<open>add_component\<close> hands
  its argument through, and logging is left out.
\<close>

definition setup_tool ::
  "('r, 'm, 'h) collaborators \<Rightarrow> config \<Rightarrow> ('r, 'm, 'h) world
    \<Rightarrow> (error + ('r, 'm) tool) \<times> ('r, 'm, 'h) world" where
  "setup_tool c cfg w =
     (case from_url c (infile cfg) of
        Inl e \<Rightarrow> (Inl e, w)
      | Inr src \<Rightarrow>
          let cal = \<lparr>calibrator_subarray = subarray src\<rparr> in
          (case HDF5TableWriter c (outfile cfg) ''image_infos'' True w of
             (Inl e, w') \<Rightarrow> (Inl e, w')
           | (Inr wr, w') \<Rightarrow>
               (Inr \<lparr>traits = cfg, event_source = src, calibrator = cal, writer = wr\<rparr>, w')))"

text \<open>
  Lines 84 to 90 on the store: the mask from the image, the copy, the masked assignment,
  the parameters of the copy. The variable \<open>image\<close> holds \<open>None\<close> or the address of an
  array; \<open>None\<close> has no method \<open>copy\<close>.
\<close>

definition clean_and_parametrize ::
  "('r, 'm, 'h) collaborators \<Rightarrow> camera_geometry \<Rightarrow> addr option \<Rightarrow> store
    \<Rightarrow> (error + 'h) \<times> store" where
  "clean_and_parametrize c geom img s =
     (case tailcuts_clean c geom (map_option (nth s) img) 10 5 of
        Inl e \<Rightarrow> (Inl e, s)
      | Inr msk \<Rightarrow>
          (case img of
             None \<Rightarrow> (Inl AttributeError, s)
           | Some a \<Rightarrow>
               (case ndarray_copy a s of
                  (cleaned, s1) \<Rightarrow>
                    (case setitem_bool cleaned (invert_mask msk) 0 s1 of
                       Inl e \<Rightarrow> (Inl e, s1)
                     | Inr s2 \<Rightarrow> (hillas_parameters c geom (s2 ! cleaned), s2)))))"

text \<open>
  \<open>event.dl1.tel[tel_id]\<close>, line 81. The container \<open>event.dl1.tel\<close> (a \<open>Map\<close> of
  ctapipe, whose class is not in the file) is a dictionary with a default factory: the
  lookup of a telescope it does not hold stores a new dl1 container there, with no image,
  and returns it. The subarray's \<open>tel\<close> of line 80 is a plain dictionary.
\<close>

definition dl1_getitem ::
  "('r, 'm) event \<Rightarrow> tel_id \<Rightarrow> dl1_camera_container \<times> ('r, 'm) event" where
  "dl1_getitem ev tid =
     (case dl1_tel (dl1 ev) tid of
        Some d \<Rightarrow> (d, ev)
      | None \<Rightarrow>
          (\<lparr>dl1_image = None\<rparr>,
           ev\<lparr>dl1 := (dl1 ev)\<lparr>dl1_tel := (dl1_tel (dl1 ev))(tid \<mapsto> \<lparr>dl1_image = None\<rparr>)\<rparr>\<rparr>))"

text \<open>The event after a telescope step: its image array is what the store holds for it.\<close>

definition with_image :: "('r, 'm) event \<Rightarrow> tel_id \<Rightarrow> ndarray \<Rightarrow> ('r, 'm) event" where
  "with_image ev tid a =
     ev\<lparr>dl1 := (dl1 ev)\<lparr>dl1_tel := (dl1_tel (dl1 ev))(tid \<mapsto> \<lparr>dl1_image = Some a\<rparr>)\<rparr>\<rparr>"

text \<open>
  The body of the inner loop, lines 80 to 93. A telescope that the subarray does not know
  is a failed lookup. The store of the step holds the array of the dl1 container, if it has
  one, at address 0; the step returns the event with what the store holds there at its end.
\<close>

definition process_tel ::
  "('r, 'm, 'h) collaborators \<Rightarrow> ('r, 'm) tool \<Rightarrow> ('r, 'm) event \<Rightarrow> tel_id \<Rightarrow> ('r, 'm, 'h) world
    \<Rightarrow> error option \<times> ('r, 'm) event \<times> ('r, 'm, 'h) world" where
  "process_tel c t ev tid w =
     (case subarray_tel (subarray (event_source t)) tid of
        None \<Rightarrow> (Some KeyError, ev, w)
      | Some tel \<Rightarrow>
          let geom = geometry (camera tel) in
          (case dl1_getitem ev tid of
             (dl1t, ev1) \<Rightarrow>
               (case (case dl1_image dl1t of
                        None \<Rightarrow> clean_and_parametrize c geom None []
                      | Some im \<Rightarrow> clean_and_parametrize c geom (Some 0) [im]) of
                  (res, s) \<Rightarrow>
                    let ev' = (case dl1_image dl1t of
                                 None \<Rightarrow> ev1
                               | Some im \<Rightarrow> with_image ev1 tid (s ! 0)) in
                    (case res of
                       Inl e \<Rightarrow> (Some e, ev', w)
                     | Inr params \<Rightarrow>
                         (case writer_write c (writer t) (camera_name geom)
                                 [R0 (r0 ev'), MC (mc ev'), Hillas params] w of
                            (r, w') \<Rightarrow> (r, ev', w'))))))"

text \<open>The inner loop, line 78.\<close>

fun tel_loop ::
  "('r, 'm, 'h) collaborators \<Rightarrow> ('r, 'm) tool \<Rightarrow> ('r, 'm) event \<Rightarrow> tel_id list
    \<Rightarrow> ('r, 'm, 'h) world \<Rightarrow> error option \<times> ('r, 'm, 'h) world" where
  "tel_loop c t ev [] w = (None, w)"
| "tel_loop c t ev (tid # tids) w =
     (case process_tel c t ev tid w of
        (Some e, ev', w') \<Rightarrow> (Some e, w')
      | (None, ev', w') \<Rightarrow> tel_loop c t ev' tids w')"

text \<open>The body of the outer loop, lines 76 to 93.\<close>

definition process_event ::
  "('r, 'm, 'h) collaborators \<Rightarrow> ('r, 'm) tool \<Rightarrow> ('r, 'm) event \<Rightarrow> ('r, 'm, 'h) world
    \<Rightarrow> error option \<times> ('r, 'm, 'h) world" where
  "process_event c t ev w =
     (case calibrate c (calibrator t) ev of
        Inl e \<Rightarrow> (Some e, w)
      | Inr ev' \<Rightarrow> tel_loop c t ev' (tels_with_data (dl0 ev')) w)"

fun event_loop ::
  "('r, 'm, 'h) collaborators \<Rightarrow> ('r, 'm) tool \<Rightarrow> ('r, 'm) event list \<Rightarrow> ('r, 'm, 'h) world
    \<Rightarrow> error option \<times> ('r, 'm, 'h) world" where
  "event_loop c t [] w = (None, w)"
| "event_loop c t (ev # evs) w =
     (case process_event c t ev w of
        (Some e, w') \<Rightarrow> (Some e, w')
      | (None, w') \<Rightarrow> event_loop c t evs w')"

text \<open>\<open>start\<close>, lines 66 to 93.\<close>

definition start ::
  "('r, 'm, 'h) collaborators \<Rightarrow> ('r, 'm) tool \<Rightarrow> ('r, 'm, 'h) world
    \<Rightarrow> error option \<times> ('r, 'm, 'h) world" where
  "start c t w =
     (case tqdm (events (event_source t)) (max_events (event_source t))
             (py_invert (progress (traits t))) w of
        (it, w1) \<Rightarrow> event_loop c t it w1)"

text \<open>\<open>finish\<close>, lines 95 to 97.\<close>

definition finish :: "('r, 'm) tool \<Rightarrow> ('r, 'm, 'h) world \<Rightarrow> ('r, 'm, 'h) world" where
  "finish t w = writer_close (writer t) w"

text \<open>
  Modelled from the spec: \<open>Tool.run\<close> (ctapipe.core), which line 102 calls, is not in the
  file. The spec gives the control flow (the tool initialises its collaborators, then
  iterates the events, the writer being closed on completion) and says that any failure
  propagates and terminates the run.
\<close>

definition run ::
  "('r, 'm, 'h) collaborators \<Rightarrow> config \<Rightarrow> ('r, 'm, 'h) world
    \<Rightarrow> error option \<times> ('r, 'm, 'h) world" where
  "run c cfg w =
     (case setup_tool c cfg w of
        (Inl e, w1) \<Rightarrow> (Some e, w1)
      | (Inr t, w1) \<Rightarrow>
          (case start c t w1 of
             (Some e, w2) \<Rightarrow> (Some e, w2)
           | (None, w2) \<Rightarrow> (None, finish t w2)))"

text \<open>
  Modelled from the spec: the function \<open>tailcuts_clean\<close> (ctapipe.image) is not in the
  file, and the spec leaves its algorithm out. What the spec says of it: a pure function of
  a geometry descriptor and a pixel-intensity array, under a picture and a boundary
  threshold, producing a boolean mask with one boolean per pixel index. The decision for
  one pixel is the parameter \<open>keep\<close>.
\<close>

definition spec_tailcuts_clean ::
  "(camera_geometry \<Rightarrow> ndarray \<Rightarrow> int \<Rightarrow> int \<Rightarrow> nat \<Rightarrow> bool)
    \<Rightarrow> camera_geometry \<Rightarrow> ndarray \<Rightarrow> int \<Rightarrow> int \<Rightarrow> mask" where
  "spec_tailcuts_clean keep geom im picture_thresh boundary_thresh =
     map (keep geom im picture_thresh boundary_thresh) [0..<length im]"

subsection \<open>Vocabulary of the properties\<close>

text \<open>
  The number of telescopes with data of an event, as the inner loop reads it: from the
  event the calibrator returns.
\<close>

definition tels_in_event ::
  "('r, 'm, 'h) collaborators \<Rightarrow> camera_calibrator \<Rightarrow> ('r, 'm) event \<Rightarrow> nat" where
  "tels_in_event c cal ev =
     (case calibrate c cal ev of
        Inl e \<Rightarrow> 0
      | Inr ev' \<Rightarrow> length (tels_with_data (dl0 ev')))"

text \<open>
  The row a telescope step writes for an event, and the rows the steps of an event write.
\<close>

definition tel_row ::
  "('r, 'm) tool \<Rightarrow> ('r, 'm) event \<Rightarrow> tel_id \<Rightarrow> ('r, 'm, 'h) row \<Rightarrow> bool" where
  "tel_row t ev tid row \<longleftrightarrow>
     (\<exists>tel p. subarray_tel (subarray (event_source t)) tid = Some tel \<and>
        row = (group_name (writer t), camera_name (geometry (camera tel)),
               [R0 (r0 ev), MC (mc ev), Hillas p]))"

definition event_row ::
  "('r, 'm, 'h) collaborators \<Rightarrow> ('r, 'm) tool \<Rightarrow> ('r, 'm) event \<Rightarrow> ('r, 'm, 'h) row \<Rightarrow> bool" where
  "event_row c t ev row \<longleftrightarrow>
     (\<exists>ev' tid. calibrate c (calibrator t) ev = Inr ev' \<and>
        tid \<in> set (tels_with_data (dl0 ev')) \<and> tel_row t ev' tid row)"

text \<open>
  A telescope of an event has an image that the cleaning function, called with the
  thresholds 10 and 5, returns a mask for.
\<close>

definition cleaned_at_10_5 ::
  "('r, 'm, 'h) collaborators \<Rightarrow> ('r, 'm) tool \<Rightarrow> ('r, 'm) event \<Rightarrow> tel_id \<Rightarrow> bool" where
  "cleaned_at_10_5 c t ev tid \<longleftrightarrow>
     (\<exists>tel d im msk. subarray_tel (subarray (event_source t)) tid = Some tel \<and>
        dl1_tel (dl1 ev) tid = Some d \<and> dl1_image d = Some im \<and>
        tailcuts_clean c (geometry (camera tel)) (Some im) 10 5 = Inr msk)"

subsection \<open>A small dataset\<close>

text \<open>
  Two cameras, two events (the first seen by both telescopes, the second by one), a
  cleaning function that keeps the pixels at or above the picture threshold and a
  parametrisation that returns the total intensity. The output file exists before the run.
\<close>

definition ex_subarray :: subarray_description where
  "ex_subarray = \<lparr>subarray_tel =
     [1 \<mapsto> \<lparr>camera = \<lparr>geometry = \<lparr>camera_name = ''LSTCam''\<rparr>\<rparr>\<rparr>,
      2 \<mapsto> \<lparr>camera = \<lparr>geometry = \<lparr>camera_name = ''NectarCam''\<rparr>\<rparr>\<rparr>]\<rparr>"

definition ex_event :: "nat \<Rightarrow> tel_id list \<Rightarrow> (nat, nat) event" where
  "ex_event n tids =
     \<lparr>r0 = n, mc = 10 * n, dl0 = \<lparr>tels_with_data = tids\<rparr>, dl1 = \<lparr>dl1_tel = Map.empty\<rparr>\<rparr>"

definition ex_dl1 :: dl1_container where
  "ex_dl1 = \<lparr>dl1_tel =
     [1 \<mapsto> \<lparr>dl1_image = Some [12, 3, 7]\<rparr>, 2 \<mapsto> \<lparr>dl1_image = Some [4, 11, 6]\<rparr>]\<rparr>"

definition ex_source :: "(nat, nat) event_source" where
  "ex_source = \<lparr>events = [ex_event 1 [1, 2], ex_event 2 [1]], max_events = None,
                 subarray = ex_subarray\<rparr>"

definition ex_collab :: "(nat, nat, real) collaborators" where
  "ex_collab =
     \<lparr>from_url = (\<lambda>url. if url = ''in.simtel'' then Inr ex_source else Inl (Raised ''no file'')),
      calibrate = (\<lambda>cal ev. Inr (ev\<lparr>dl1 := ex_dl1\<rparr>)),
      tailcuts_clean = (\<lambda>geom img p b.
          case img of
            None \<Rightarrow> Inl (Raised ''no image'')
          | Some im \<Rightarrow> Inr (map (\<lambda>x. of_int p \<le> x) im)),
      hillas_parameters = (\<lambda>geom im. Inr (sum_list im)),
      create_error = (\<lambda>path. None),
      write_error = (\<lambda>rows table cs. None)\<rparr>"

definition ex_config :: config where
  "ex_config = \<lparr>infile = ''in.simtel'', outfile = ''out.h5'', progress = True\<rparr>"

definition ex_world :: "(nat, nat, real) world" where
  "ex_world = \<lparr>files = [''out.h5'' \<mapsto> [(''old'', ''old'', [])]], open_files = {},
                progress_bar = False\<rparr>"

definition ex_tool :: "(nat, nat) tool" where
  "ex_tool = \<lparr>traits = ex_config, event_source = ex_source,
               calibrator = \<lparr>calibrator_subarray = ex_subarray\<rparr>,
               writer = \<lparr>filename = ''out.h5'', group_name = ''image_infos''\<rparr>\<rparr>"

definition ex_rows :: "(nat, nat, real) row list" where
  "ex_rows =
     [(''image_infos'', ''LSTCam'', [R0 1, MC 10, Hillas 12]),
      (''image_infos'', ''NectarCam'', [R0 1, MC 10, Hillas 11]),
      (''image_infos'', ''LSTCam'', [R0 2, MC 20, Hillas 12])]"

text \<open>Collaborators that fail: in calibration, in cleaning, in writing.\<close>

definition ex_collab_bad :: "(nat, nat, real) collaborators" where
  "ex_collab_bad = ex_collab\<lparr>calibrate := (\<lambda>cal ev. Inl (Raised ''bad event''))\<rparr>"

definition ex_collab_noclean :: "(nat, nat, real) collaborators" where
  "ex_collab_noclean = ex_collab\<lparr>tailcuts_clean := (\<lambda>geom im p b. Inl (Raised ''cleaning''))\<rparr>"

definition ex_collab_nowrite :: "(nat, nat, real) collaborators" where
  "ex_collab_nowrite = ex_collab\<lparr>write_error := (\<lambda>rows table cs. Some (Raised ''disk full''))\<rparr>"

text \<open>A cleaning function that knows the thresholds 10 and 5 only.\<close>

definition ex_tailcuts_10_5 ::
  "camera_geometry \<Rightarrow> ndarray option \<Rightarrow> int \<Rightarrow> int \<Rightarrow> error + mask" where
  "ex_tailcuts_10_5 geom img p b =
     (if p = 10 \<and> b = 5 then tailcuts_clean ex_collab geom img 10 5
      else Inl (Raised ''other thresholds''))"

text \<open>
  A dataset of one event whose second telescope has no pixel at or above the picture
  threshold, and a parametrisation that raises on an image without signal.
\<close>

definition ex_source_faint :: "(nat, nat) event_source" where
  "ex_source_faint = \<lparr>events = [ex_event 1 [1, 2]], max_events = None, subarray = ex_subarray\<rparr>"

definition ex_dl1_faint :: dl1_container where
  "ex_dl1_faint = \<lparr>dl1_tel =
     [1 \<mapsto> \<lparr>dl1_image = Some [12, 3, 7]\<rparr>, 2 \<mapsto> \<lparr>dl1_image = Some [4, 1, 6]\<rparr>]\<rparr>"

definition ex_collab_faint :: "(nat, nat, real) collaborators" where
  "ex_collab_faint = ex_collab
     \<lparr>from_url := (\<lambda>url. Inr ex_source_faint),
      calibrate := (\<lambda>cal ev. Inr (ev\<lparr>dl1 := ex_dl1_faint\<rparr>)),
      hillas_parameters := (\<lambda>geom im.
          if sum_list im = 0 then Inl (Raised ''HillasParameterizationError'')
          else Inr (sum_list im))\<rparr>"

definition ex_world_faint :: "(nat, nat, real) world" where
  "ex_world_faint = ex_world
     \<lparr>files := [''out.h5'' \<mapsto> [(''image_infos'', ''LSTCam'', [R0 1, MC 10, Hillas 12])]],
      open_files := {''out.h5''}\<rparr>"

text \<open>A per-pixel decision for \<open>spec_tailcuts_clean\<close>: at or above the picture threshold.\<close>

definition ex_keep :: "camera_geometry \<Rightarrow> ndarray \<Rightarrow> int \<Rightarrow> int \<Rightarrow> nat \<Rightarrow> bool" where
  "ex_keep geom im p b i \<longleftrightarrow> of_int p \<le> im ! i"

text \<open>The cleaning function of the spec's shape with that decision.\<close>

definition ex_collab_spec :: "(nat, nat, real) collaborators" where
  "ex_collab_spec = ex_collab\<lparr>tailcuts_clean := (\<lambda>geom img p b.
       case img of
         None \<Rightarrow> Inl (Raised ''no image'')
       | Some im \<Rightarrow> Inr (spec_tailcuts_clean ex_keep geom im p b))\<rparr>"

text \<open>The first event after calibration, and the world after \<open>setup\<close>.\<close>

definition ex_calibrated :: "(nat, nat) event" where
  "ex_calibrated = ex_event 1 [1, 2]\<lparr>dl1 := ex_dl1\<rparr>"

definition ex_world_open :: "(nat, nat, real) world" where
  "ex_world_open = ex_world\<lparr>files := [''out.h5'' \<mapsto> []], open_files := {''out.h5''}\<rparr>"

definition ex_world_done :: "(nat, nat, real) world" where
  "ex_world_done = ex_world\<lparr>files := [''out.h5'' \<mapsto> ex_rows]\<rparr>"

section \<open>Properties\<close>

lemma py_invert_nonzero: "py_invert b \<noteq> 0"
  by (simp add: py_invert_def)

lemma writer_write_frame:
  "writer_write c wr tb cs w = (r, w') \<Longrightarrow>
     progress_bar w' = progress_bar w \<and> open_files w' = open_files w \<and>
     (\<forall>p. p \<noteq> filename wr \<longrightarrow> files w' p = files w p)"
  by (auto simp: writer_write_def split: option.splits)

lemma setitem_bool_copy:
  "setitem_bool (length s) idx v (s @ [a]) =
     (if idx = [] then Inr (s @ [a])
      else if length idx \<noteq> length a then Inl IndexError
      else Inr (s @ [map (\<lambda>(x, b). if b then v else x) (zip a idx)]))"
  by (simp add: setitem_bool_def)

lemma clean_and_parametrize_store:
  assumes "clean_and_parametrize c geom img s = (res, s')" and "b < length s"
  shows "s' ! b = s ! b"
  using assms
  by (auto simp: clean_and_parametrize_def ndarray_copy_def setitem_bool_copy nth_append
      split: sum.splits if_splits option.splits)

lemma clean_and_parametrize_result:
  assumes "clean_and_parametrize c geom img s = (Inr p, s')"
  shows "\<exists>a msk cleaned. img = Some a \<and> tailcuts_clean c geom (Some (s ! a)) 10 5 = Inr msk
           \<and> s' = s @ [cleaned] \<and> hillas_parameters c geom cleaned = Inr p"
  using assms
  by (auto simp: clean_and_parametrize_def ndarray_copy_def setitem_bool_copy
      split: sum.splits if_splits option.splits)

lemma clean_and_parametrize_forward:
  assumes "tailcuts_clean c geom (Some (s ! a)) 10 5 = Inr msk" and "length msk = length (s ! a)"
  shows "clean_and_parametrize c geom (Some a) s =
    (hillas_parameters c geom (map (\<lambda>(x, b). if b then 0 else x) (zip (s ! a) (invert_mask msk))),
     s @ [map (\<lambda>(x, b). if b then 0 else x) (zip (s ! a) (invert_mask msk))])"
proof (cases "msk = []")
  case True
  with assms(2) have "s ! a = []" by simp
  with True assms(1) show ?thesis
    by (simp add: clean_and_parametrize_def ndarray_copy_def setitem_bool_copy invert_mask_def)
next
  case False
  with assms show ?thesis
    by (simp add: clean_and_parametrize_def ndarray_copy_def setitem_bool_copy invert_mask_def)
qed

lemma with_image_same:
  "dl1_tel (dl1 ev) tid = Some d \<Longrightarrow> dl1_image d = Some im \<Longrightarrow> with_image ev tid im = ev"
proof -
  assume a: "dl1_tel (dl1 ev) tid = Some d" and b: "dl1_image d = Some im"
  have "d = \<lparr>dl1_image = Some im\<rparr>" using b by (cases d) simp
  with a show ?thesis by (simp add: with_image_def map_upd_triv)
qed

lemma dl1_getitem_present: "dl1_tel (dl1 ev) tid = Some d \<Longrightarrow> dl1_getitem ev tid = (d, ev)"
  by (simp add: dl1_getitem_def)

lemma dl1_getitem_rest:
  "dl1_getitem ev tid = (d, ev1) \<Longrightarrow> r0 ev1 = r0 ev \<and> mc ev1 = mc ev \<and> dl0 ev1 = dl0 ev"
  by (auto simp: dl1_getitem_def split: option.splits)

lemma process_tel_present:
  assumes "process_tel c t ev tid w = (r, ev', w')" and "dl1_tel (dl1 ev) tid = Some d"
  shows "ev' = ev"
proof (cases "dl1_image d")
  case None
  with assms show ?thesis
    by (auto simp: process_tel_def Let_def dl1_getitem_present
        split: option.splits prod.splits sum.splits)
next
  case (Some im)
  have same: "with_image ev tid im = ev" using assms(2) Some by (rule with_image_same)
  from assms Some show ?thesis
    by (auto simp: process_tel_def Let_def dl1_getitem_present same
        dest!: clean_and_parametrize_store [where b = 0]
        split: option.splits prod.splits sum.splits)
qed

lemma process_tel_rest:
  assumes "process_tel c t ev tid w = (r, ev', w')"
  shows "r0 ev' = r0 ev \<and> mc ev' = mc ev \<and> dl0 ev' = dl0 ev"
  using assms
  by (auto simp: process_tel_def Let_def with_image_def dest!: dl1_getitem_rest
      split: option.splits prod.splits sum.splits)

lemma process_tel_success:
  assumes "process_tel c t ev tid w = (None, ev', w')"
  shows "\<exists>tel d im msk cleaned p.
      subarray_tel (subarray (event_source t)) tid = Some tel \<and>
      dl1_tel (dl1 ev) tid = Some d \<and> dl1_image d = Some im \<and>
      tailcuts_clean c (geometry (camera tel)) (Some im) 10 5 = Inr msk \<and>
      hillas_parameters c (geometry (camera tel)) cleaned = Inr p \<and>
      ev' = ev \<and>
      w' = w\<lparr>files := (files w)(filename (writer t) \<mapsto>
              rows_of w (filename (writer t)) @
                [(group_name (writer t), camera_name (geometry (camera tel)),
                  [R0 (r0 ev), MC (mc ev), Hillas p])])\<rparr>"
proof -
  from assms obtain tel where tel: "subarray_tel (subarray (event_source t)) tid = Some tel"
    by (auto simp: process_tel_def split: option.splits)
  obtain dl1t ev1 where gi: "dl1_getitem ev tid = (dl1t, ev1)"
    by (cases "dl1_getitem ev tid") auto
  from assms tel gi obtain im where im: "dl1_image dl1t = Some im"
    by (cases "dl1_image dl1t")
      (auto simp: process_tel_def Let_def clean_and_parametrize_def
        split: option.splits prod.splits sum.splits)
  from gi im have d: "dl1_tel (dl1 ev) tid = Some dl1t"
    by (auto simp: dl1_getitem_def split: option.splits)
  have ev': "ev' = ev" using assms d by (rule process_tel_present)
  obtain res s where cp: "clean_and_parametrize c (geometry (camera tel)) (Some 0) [im] = (res, s)"
    by (cases "clean_and_parametrize c (geometry (camera tel)) (Some 0) [im]") auto
  from assms tel gi im cp obtain p where res: "res = Inr p"
    by (cases res) (auto simp: process_tel_def Let_def split: prod.splits)
  from clean_and_parametrize_result [OF cp [unfolded res]] obtain msk cleaned where
    m: "tailcuts_clean c (geometry (camera tel)) (Some im) 10 5 = Inr msk"
      "hillas_parameters c (geometry (camera tel)) cleaned = Inr p"
    by auto
  from process_tel_rest [OF assms] have rest: "r0 ev' = r0 ev" "mc ev' = mc ev" by simp_all
  have "w' = w\<lparr>files := (files w)(filename (writer t) \<mapsto>
              rows_of w (filename (writer t)) @
                [(group_name (writer t), camera_name (geometry (camera tel)),
                  [R0 (r0 ev), MC (mc ev), Hillas p])])\<rparr>"
    using assms tel gi im cp res
    by (auto simp: process_tel_def Let_def with_image_def writer_write_def
        dest!: dl1_getitem_rest split: option.splits prod.splits)
  with tel d im m ev' show ?thesis by blast
qed

lemma process_tel_frame:
  "process_tel c t ev tid w = (r, ev', w') \<Longrightarrow>
     progress_bar w' = progress_bar w \<and> open_files w' = open_files w \<and>
     (\<forall>p. p \<noteq> filename (writer t) \<longrightarrow> files w' p = files w p)"
  by (auto simp: process_tel_def Let_def dest: writer_write_frame
      split: option.splits prod.splits sum.splits)

lemma process_tel_failure:
  "process_tel c t ev tid w = (Some e, ev', w') \<Longrightarrow> w' = w"
  by (auto simp: process_tel_def Let_def writer_write_def
      split: option.splits prod.splits sum.splits)

lemma tel_loop_frame:
  "tel_loop c t ev tids w = (r, w') \<Longrightarrow>
     progress_bar w' = progress_bar w \<and> open_files w' = open_files w \<and>
     (\<forall>p. p \<noteq> filename (writer t) \<longrightarrow> files w' p = files w p)"
proof (induction tids arbitrary: ev w)
  case Nil
  then show ?case by simp
next
  case (Cons tid tids)
  obtain r1 ev1 w1 where step: "process_tel c t ev tid w = (r1, ev1, w1)"
    by (cases "process_tel c t ev tid w") auto
  note fr = process_tel_frame [OF step]
  show ?case
  proof (cases r1)
    case None
    with Cons.prems step have "tel_loop c t ev1 tids w1 = (r, w')" by simp
    from Cons.IH [OF this] fr show ?thesis by simp
  next
    case (Some e)
    with Cons.prems step have "w' = w1" by simp
    with fr show ?thesis by simp
  qed
qed

lemma process_event_frame:
  "process_event c t ev w = (r, w') \<Longrightarrow>
     progress_bar w' = progress_bar w \<and> open_files w' = open_files w \<and>
     (\<forall>p. p \<noteq> filename (writer t) \<longrightarrow> files w' p = files w p)"
  by (auto simp: process_event_def dest: tel_loop_frame split: sum.splits)

lemma event_loop_frame:
  "event_loop c t evs w = (r, w') \<Longrightarrow>
     progress_bar w' = progress_bar w \<and> open_files w' = open_files w \<and>
     (\<forall>p. p \<noteq> filename (writer t) \<longrightarrow> files w' p = files w p)"
proof (induction evs arbitrary: w)
  case Nil
  then show ?case by simp
next
  case (Cons ev evs)
  obtain r1 w1 where step: "process_event c t ev w = (r1, w1)"
    by (cases "process_event c t ev w") auto
  note fr = process_event_frame [OF step]
  show ?case
  proof (cases r1)
    case None
    with Cons.prems step have "event_loop c t evs w1 = (r, w')" by simp
    from Cons.IH [OF this] fr show ?thesis by simp
  next
    case (Some e)
    with Cons.prems step have "w' = w1" by simp
    with fr show ?thesis by simp
  qed
qed

lemma start_progress_bar: "progress_bar (snd (start c t w)) = progress_bar w"
proof -
  obtain r w' where res: "event_loop c t (events (event_source t)) w = (r, w')"
    by (cases "event_loop c t (events (event_source t)) w") auto
  have "start c t w = (r, w')"
    using res by (simp add: start_def tqdm_def py_invert_nonzero)
  with event_loop_frame [OF res] show ?thesis by simp
qed


lemma process_tel_rows:
  assumes "process_tel c t ev tid w = (r, ev', w')"
  shows "\<exists>new. rows_of w' (filename (writer t)) = rows_of w (filename (writer t)) @ new \<and>
      length new \<le> 1 \<and> (r = None \<longrightarrow> length new = 1) \<and>
      (\<forall>row\<in>set new. \<exists>tel p.
         subarray_tel (subarray (event_source t)) tid = Some tel \<and>
         row = (group_name (writer t), camera_name (geometry (camera tel)),
                [R0 (r0 ev), MC (mc ev), Hillas p]))"
proof (cases r)
  case None
  with assms have "process_tel c t ev tid w = (None, ev', w')" by simp
  from process_tel_success [OF this] obtain tel p where
    tel: "subarray_tel (subarray (event_source t)) tid = Some tel" and
    w': "w' = w\<lparr>files := (files w)(filename (writer t) \<mapsto>
              rows_of w (filename (writer t)) @
                [(group_name (writer t), camera_name (geometry (camera tel)),
                  [R0 (r0 ev), MC (mc ev), Hillas p])])\<rparr>"
    by blast
  have "rows_of w' (filename (writer t)) = rows_of w (filename (writer t)) @
                [(group_name (writer t), camera_name (geometry (camera tel)),
                  [R0 (r0 ev), MC (mc ev), Hillas p])]"
    by (simp add: w' rows_of_def)
  with tel show ?thesis
    by (intro exI [of _ "[(group_name (writer t), camera_name (geometry (camera tel)),
                  [R0 (r0 ev), MC (mc ev), Hillas p])]"]) simp
next
  case (Some e)
  with assms have "w' = w" by (auto dest: process_tel_failure)
  with Some show ?thesis by simp
qed

lemma process_tel_rows':
  assumes "process_tel c t ev tid w = (r, ev', w')"
  shows "\<exists>new. rows_of w' (filename (writer t)) = rows_of w (filename (writer t)) @ new \<and>
      length new \<le> 1 \<and> (r = None \<longrightarrow> length new = 1) \<and>
      (\<forall>row\<in>set new. tel_row t ev tid row)"
  using process_tel_rows [OF assms] unfolding tel_row_def .

lemma tel_loop_rows:
  "tel_loop c t ev tids w = (r, w') \<Longrightarrow>
   \<exists>new. rows_of w' (filename (writer t)) = rows_of w (filename (writer t)) @ new \<and>
      length new \<le> length tids \<and> (r = None \<longrightarrow> length new = length tids) \<and>
      (\<forall>row\<in>set new. \<exists>tid\<in>set tids. tel_row t ev tid row)"
proof (induction tids arbitrary: w)
  case Nil
  then show ?case by simp
next
  case (Cons tid tids)
  obtain r1 ev1 w1 where step: "process_tel c t ev tid w = (r1, ev1, w1)"
    by (cases "process_tel c t ev tid w") auto
  from process_tel_rows' [OF step] obtain new1 where
    n1: "rows_of w1 (filename (writer t)) = rows_of w (filename (writer t)) @ new1"
      "length new1 \<le> 1" "r1 = None \<longrightarrow> length new1 = 1"
      "\<forall>row\<in>set new1. tel_row t ev tid row"
    by blast
  show ?case
  proof (cases r1)
    case None
    from process_tel_success [OF step [unfolded None]] have ev1: "ev1 = ev" by blast
    with None Cons.prems step have "tel_loop c t ev tids w1 = (r, w')" by simp
    from Cons.IH [OF this] obtain new2 where
      n2: "rows_of w' (filename (writer t)) = rows_of w1 (filename (writer t)) @ new2"
        "length new2 \<le> length tids" "r = None \<longrightarrow> length new2 = length tids"
        "\<forall>row\<in>set new2. \<exists>tid\<in>set tids. tel_row t ev tid row"
      by blast
    have a: "rows_of w' (filename (writer t)) = rows_of w (filename (writer t)) @ (new1 @ new2)"
      using n1(1) n2(1) by simp
    have b: "length (new1 @ new2) \<le> length (tid # tids)"
      using n1(2) n2(2) by simp
    have c: "r = None \<longrightarrow> length (new1 @ new2) = length (tid # tids)"
      using n1(3) n2(3) None by simp
    have d: "\<forall>row\<in>set (new1 @ new2). \<exists>tid'\<in>set (tid # tids). tel_row t ev tid' row"
      using n1(4) n2(4) by auto
    from a b c d show ?thesis by (intro exI [of _ "new1 @ new2"] conjI)
  next
    case (Some e)
    with Cons.prems step have "w' = w1" "r = Some e" by simp_all
    moreover from step Some have "w1 = w" by (auto dest: process_tel_failure)
    ultimately show ?thesis by simp
  qed
qed

lemma process_event_rows:
  assumes "process_event c t ev w = (r, w')"
  shows "\<exists>new. rows_of w' (filename (writer t)) = rows_of w (filename (writer t)) @ new \<and>
      length new \<le> tels_in_event c (calibrator t) ev \<and>
      (r = None \<longrightarrow> length new = tels_in_event c (calibrator t) ev) \<and>
      (\<forall>row\<in>set new. \<exists>ev' tid.
         calibrate c (calibrator t) ev = Inr ev' \<and> tid \<in> set (tels_with_data (dl0 ev')) \<and>
         tel_row t ev' tid row)"
proof (cases "calibrate c (calibrator t) ev")
  case (Inl e)
  with assms have "w' = w" "r = Some e" by (simp_all add: process_event_def)
  then show ?thesis by simp
next
  case (Inr ev')
  with assms have "tel_loop c t ev' (tels_with_data (dl0 ev')) w = (r, w')"
    by (simp add: process_event_def)
  from tel_loop_rows [OF this] obtain new where
    n: "rows_of w' (filename (writer t)) = rows_of w (filename (writer t)) @ new"
      "length new \<le> length (tels_with_data (dl0 ev'))"
      "r = None \<longrightarrow> length new = length (tels_with_data (dl0 ev'))"
      "\<forall>row\<in>set new. \<exists>tid\<in>set (tels_with_data (dl0 ev')). tel_row t ev' tid row"
    by blast
  have cnt: "tels_in_event c (calibrator t) ev = length (tels_with_data (dl0 ev'))"
    using Inr by (simp add: tels_in_event_def)
  have d: "\<forall>row\<in>set new. \<exists>ev'' tid.
         calibrate c (calibrator t) ev = Inr ev'' \<and> tid \<in> set (tels_with_data (dl0 ev'')) \<and>
         tel_row t ev'' tid row"
    using n(4) Inr by auto
  from n(1) n(2) n(3) d show ?thesis
    unfolding cnt by (intro exI [of _ new] conjI)
qed

lemma process_event_rows':
  assumes "process_event c t ev w = (r, w')"
  shows "\<exists>new. rows_of w' (filename (writer t)) = rows_of w (filename (writer t)) @ new \<and>
      length new \<le> tels_in_event c (calibrator t) ev \<and>
      (r = None \<longrightarrow> length new = tels_in_event c (calibrator t) ev) \<and>
      (\<forall>row\<in>set new. event_row c t ev row)"
  using process_event_rows [OF assms] unfolding event_row_def .

lemma event_loop_rows:
  "event_loop c t evs w = (r, w') \<Longrightarrow>
   \<exists>new. rows_of w' (filename (writer t)) = rows_of w (filename (writer t)) @ new \<and>
      length new \<le> (\<Sum>ev\<leftarrow>evs. tels_in_event c (calibrator t) ev) \<and>
      (r = None \<longrightarrow> length new = (\<Sum>ev\<leftarrow>evs. tels_in_event c (calibrator t) ev)) \<and>
      (\<forall>row\<in>set new. \<exists>ev\<in>set evs. event_row c t ev row)"
proof (induction evs arbitrary: w)
  case Nil
  then show ?case by simp
next
  case (Cons ev evs)
  obtain r1 w1 where step: "process_event c t ev w = (r1, w1)"
    by (cases "process_event c t ev w") auto
  from process_event_rows' [OF step] obtain new1 where
    n1: "rows_of w1 (filename (writer t)) = rows_of w (filename (writer t)) @ new1"
      "length new1 \<le> tels_in_event c (calibrator t) ev"
      "r1 = None \<longrightarrow> length new1 = tels_in_event c (calibrator t) ev"
      "\<forall>row\<in>set new1. event_row c t ev row"
    by blast
  show ?case
  proof (cases r1)
    case None
    with Cons.prems step have "event_loop c t evs w1 = (r, w')" by simp
    from Cons.IH [OF this] obtain new2 where
      n2: "rows_of w' (filename (writer t)) = rows_of w1 (filename (writer t)) @ new2"
        "length new2 \<le> (\<Sum>ev\<leftarrow>evs. tels_in_event c (calibrator t) ev)"
        "r = None \<longrightarrow> length new2 = (\<Sum>ev\<leftarrow>evs. tels_in_event c (calibrator t) ev)"
        "\<forall>row\<in>set new2. \<exists>ev\<in>set evs. event_row c t ev row"
      by blast
    have a: "rows_of w' (filename (writer t)) = rows_of w (filename (writer t)) @ (new1 @ new2)"
      using n1(1) n2(1) by simp
    have b: "length (new1 @ new2) \<le> (\<Sum>ev\<leftarrow>ev # evs. tels_in_event c (calibrator t) ev)"
      using n1(2) n2(2) by simp
    have c: "r = None \<longrightarrow>
        length (new1 @ new2) = (\<Sum>ev\<leftarrow>ev # evs. tels_in_event c (calibrator t) ev)"
      using n1(3) n2(3) None by simp
    have d: "\<forall>row\<in>set (new1 @ new2). \<exists>ev'\<in>set (ev # evs). event_row c t ev' row"
      using n1(4) n2(4) by auto
    from a b c d show ?thesis by (intro exI [of _ "new1 @ new2"] conjI)
  next
    case (Some e)
    with Cons.prems step have w': "w' = w1" and r: "r = Some e" by simp_all
    have d: "\<forall>row\<in>set new1. \<exists>ev'\<in>set (ev # evs). event_row c t ev' row"
      using n1(4) by auto
    have b: "length new1 \<le> (\<Sum>ev\<leftarrow>ev # evs. tels_in_event c (calibrator t) ev)"
      using n1(2) by simp
    have c: "r = None \<longrightarrow> length new1 = (\<Sum>ev\<leftarrow>ev # evs. tels_in_event c (calibrator t) ev)"
      using r by simp
    from n1(1) b c d show ?thesis unfolding w' by (intro exI [of _ new1] conjI)
  qed
qed

lemma start_event_loop: "start c t w = event_loop c t (events (event_source t)) w"
  by (simp add: start_def tqdm_def py_invert_nonzero)

lemma setup_tool_success:
  assumes "setup_tool c cfg w = (Inr t, w1)"
  shows "from_url c (infile cfg) = Inr (event_source t)"
    and "traits t = cfg"
    and "calibrator t = \<lparr>calibrator_subarray = subarray (event_source t)\<rparr>"
    and "writer t = \<lparr>filename = outfile cfg, group_name = ''image_infos''\<rparr>"
    and "create_error c (outfile cfg) = None"
    and "w1 = w\<lparr>files := (files w)(outfile cfg \<mapsto> []),
                 open_files := insert (outfile cfg) (open_files w)\<rparr>"
  using assms
  by (auto simp: setup_tool_def HDF5TableWriter_def Let_def split: sum.splits option.splits)

lemma run_success:
  assumes "run c cfg w = (None, w')"
  obtains t w1 w2 where "setup_tool c cfg w = (Inr t, w1)" and "start c t w1 = (None, w2)"
    and "w' = finish t w2"
  using assms
  by (auto simp: run_def split: prod.splits sum.splits option.splits)

lemma rows_of_finish: "rows_of (finish t w) path = rows_of w path"
  by (simp add: finish_def writer_close_def rows_of_def)

lemma world_files_same: "files v = files w \<Longrightarrow> v\<lparr>files := files w\<rparr> = v"
  by (cases v) simp

lemma process_tel_files:
  assumes "files v = files w" and "process_tel c t ev tid w = (r, ev', w')"
  shows "process_tel c t ev tid v = (r, ev', v\<lparr>files := files w'\<rparr>)"
  using assms
  by (auto simp: process_tel_def Let_def writer_write_def rows_of_def world_files_same
      split: option.splits prod.splits sum.splits)

lemma tel_loop_files:
  "files v = files w \<Longrightarrow> tel_loop c t ev tids w = (r, w') \<Longrightarrow>
     tel_loop c t ev tids v = (r, v\<lparr>files := files w'\<rparr>)"
proof (induction tids arbitrary: ev v w)
  case Nil
  then show ?case by (simp add: world_files_same)
next
  case (Cons tid tids)
  obtain r1 ev1 w1 where step: "process_tel c t ev tid w = (r1, ev1, w1)"
    by (cases "process_tel c t ev tid w") auto
  note stepv = process_tel_files [OF Cons.prems(1) step]
  show ?case
  proof (cases r1)
    case None
    with Cons.prems step have "tel_loop c t ev1 tids w1 = (r, w')" by simp
    from Cons.IH [OF _ this, of "v\<lparr>files := files w1\<rparr>"]
    show ?thesis using stepv None by simp
  next
    case (Some e)
    with Cons.prems step have "w' = w1" "r = Some e" by simp_all
    with stepv Some show ?thesis by simp
  qed
qed

lemma process_event_files:
  "files v = files w \<Longrightarrow> process_event c t ev w = (r, w') \<Longrightarrow>
     process_event c t ev v = (r, v\<lparr>files := files w'\<rparr>)"
  by (auto simp: process_event_def world_files_same dest: tel_loop_files split: sum.splits)

lemma event_loop_files:
  "files v = files w \<Longrightarrow> event_loop c t evs w = (r, w') \<Longrightarrow>
     event_loop c t evs v = (r, v\<lparr>files := files w'\<rparr>)"
proof (induction evs arbitrary: v w)
  case Nil
  then show ?case by (simp add: world_files_same)
next
  case (Cons ev evs)
  obtain r1 w1 where step: "process_event c t ev w = (r1, w1)"
    by (cases "process_event c t ev w") auto
  note stepv = process_event_files [OF Cons.prems(1) step]
  show ?case
  proof (cases r1)
    case None
    with Cons.prems step have "event_loop c t evs w1 = (r, w')" by simp
    from Cons.IH [OF _ this, of "v\<lparr>files := files w1\<rparr>"]
    show ?thesis using stepv None by simp
  next
    case (Some e)
    with Cons.prems step have "w' = w1" "r = Some e" by simp_all
    with stepv Some show ?thesis by simp
  qed
qed

lemma setup_tool_cases:
  "(\<exists>e. \<forall>v. setup_tool c cfg v = (Inl e, v)) \<or>
   (\<exists>t. filename (writer t) = outfile cfg \<and>
      (\<forall>v. setup_tool c cfg v =
        (Inr t, v\<lparr>files := (files v)(outfile cfg \<mapsto> []),
                  open_files := insert (outfile cfg) (open_files v)\<rparr>)))"
proof (cases "from_url c (infile cfg)")
  case (Inl e)
  then have "\<forall>v. setup_tool c cfg v = (Inl e, v)" by (simp add: setup_tool_def)
  then show ?thesis by blast
next
  case (Inr src)
  show ?thesis
  proof (cases "create_error c (outfile cfg)")
    case None
    let ?t = "\<lparr>traits = cfg, event_source = src,
        calibrator = \<lparr>calibrator_subarray = subarray src\<rparr>,
        writer = \<lparr>filename = outfile cfg, group_name = ''image_infos''\<rparr>\<rparr>"
    have "\<forall>v. setup_tool c cfg v =
        (Inr ?t, v\<lparr>files := (files v)(outfile cfg \<mapsto> []),
                  open_files := insert (outfile cfg) (open_files v)\<rparr>)"
      using Inr None by (simp add: setup_tool_def HDF5TableWriter_def)
    moreover have "filename (writer ?t) = outfile cfg" by simp
    ultimately show ?thesis by (intro disjI2 exI [of _ ?t] conjI)
  next
    case (Some e)
    then have "\<forall>v. setup_tool c cfg v = (Inl e, v)"
      using Inr by (simp add: setup_tool_def HDF5TableWriter_def)
    then show ?thesis by blast
  qed
qed

lemma process_tel_thresholds:
  assumes "\<And>geom im. tc geom im 10 5 = tailcuts_clean c geom im 10 5"
  shows "process_tel (c\<lparr>tailcuts_clean := tc\<rparr>) t ev tid w = process_tel c t ev tid w"
proof -
  have "clean_and_parametrize (c\<lparr>tailcuts_clean := tc\<rparr>) geom a s =
      clean_and_parametrize c geom a s" for geom a s
    by (simp add: clean_and_parametrize_def assms split: sum.splits prod.splits option.splits)
  then show ?thesis
    by (simp add: process_tel_def writer_write_def Let_def
        split: option.splits prod.splits sum.splits)
qed

lemma tel_loop_thresholds:
  assumes "\<And>geom im. tc geom im 10 5 = tailcuts_clean c geom im 10 5"
  shows "tel_loop (c\<lparr>tailcuts_clean := tc\<rparr>) t ev tids w = tel_loop c t ev tids w"
  by (induction tids arbitrary: ev w)
    (simp_all add: process_tel_thresholds [of tc c, OF assms] split: prod.splits option.splits)

lemma event_loop_thresholds:
  assumes "\<And>geom im. tc geom im 10 5 = tailcuts_clean c geom im 10 5"
  shows "event_loop (c\<lparr>tailcuts_clean := tc\<rparr>) t evs w = event_loop c t evs w"
  by (induction evs arbitrary: w)
    (simp_all add: process_event_def tel_loop_thresholds [of tc c, OF assms]
      split: prod.splits option.splits sum.splits)

lemma tel_loop_first_failure:
  "tel_loop c t ev tids1 w = (None, w1) \<Longrightarrow> process_tel c t ev tid w1 = (Some e, ev2, w2) \<Longrightarrow>
     tel_loop c t ev (tids1 @ tid # tids2) w = (Some e, w2)"
proof (induction tids1 arbitrary: w)
  case Nil
  then show ?case by simp
next
  case (Cons a tids1)
  obtain r1 ev1 wa where step: "process_tel c t ev a w = (r1, ev1, wa)"
    by (cases "process_tel c t ev a w") auto
  from Cons.prems(1) step have r1: "r1 = None" by (cases r1) simp_all
  from process_tel_success [OF step [unfolded r1]] have ev1: "ev1 = ev" by blast
  with Cons.prems(1) step r1 have "tel_loop c t ev tids1 wa = (None, w1)" by simp
  from Cons.IH [OF this Cons.prems(2)] step r1 ev1 show ?case by simp
qed

lemma event_loop_first_failure:
  "event_loop c t evs1 w = (None, w1) \<Longrightarrow> process_event c t ev w1 = (Some e, w2) \<Longrightarrow>
     event_loop c t (evs1 @ ev # evs2) w = (Some e, w2)"
proof (induction evs1 arbitrary: w)
  case Nil
  then show ?case by simp
next
  case (Cons a evs1)
  obtain r1 wa where step: "process_event c t a w = (r1, wa)"
    by (cases "process_event c t a w") auto
  from Cons.prems(1) step have r1: "r1 = None" by (cases r1) simp_all
  with Cons.prems(1) step have "event_loop c t evs1 wa = (None, w1)" by simp
  from Cons.IH [OF this Cons.prems(2)] step r1 show ?case by simp
qed

lemma run_source_failure:
  "from_url c (infile cfg) = Inl e \<Longrightarrow> run c cfg w = (Some e, w)"
  by (simp add: run_def setup_tool_def)

lemma run_event_failure:
  assumes "setup_tool c cfg w = (Inr t, w1)"
    and "events (event_source t) = evs1 @ ev # evs2"
    and "event_loop c t evs1 w1 = (None, w2)"
    and "process_event c t ev w2 = (Some e, w3)"
  shows "run c cfg w = (Some e, w3)"
  using event_loop_first_failure [OF assms(3,4), of evs2] assms(1,2)
  by (simp add: run_def start_event_loop)

lemma process_event_calibrate_failure:
  "calibrate c (calibrator t) ev = Inl e \<Longrightarrow> process_event c t ev w = (Some e, w)"
  by (simp add: process_event_def)

lemma process_event_tel_failure:
  assumes "calibrate c (calibrator t) ev = Inr ev1"
    and "tels_with_data (dl0 ev1) = tids1 @ tid # tids2"
    and "tel_loop c t ev1 tids1 w = (None, w2)"
    and "process_tel c t ev1 tid w2 = (Some e, ev2, w3)"
  shows "process_event c t ev w = (Some e, w3)"
  using tel_loop_first_failure [OF assms(3,4), of tids2] assms(1,2)
  by (simp add: process_event_def)

lemma process_tel_cleaning_failure:
  assumes "subarray_tel (subarray (event_source t)) tid = Some tel"
    and "dl1_tel (dl1 ev) tid = Some d"
    and "tailcuts_clean c (geometry (camera tel)) (dl1_image d) 10 5 = Inl e"
  shows "process_tel c t ev tid w = (Some e, ev, w)"
proof (cases "dl1_image d")
  case None
  with assms show ?thesis
    by (simp add: process_tel_def clean_and_parametrize_def dl1_getitem_present)
next
  case (Some im)
  have same: "with_image ev tid im = ev" using assms(2) Some by (rule with_image_same)
  from assms Some show ?thesis
    by (simp add: process_tel_def clean_and_parametrize_def dl1_getitem_present same)
qed

lemma process_tel_forward:
  assumes "subarray_tel (subarray (event_source t)) tid = Some tel"
    and "dl1_tel (dl1 ev) tid = Some d" and "dl1_image d = Some im"
    and "tailcuts_clean c (geometry (camera tel)) (Some im) 10 5 = Inr msk"
    and "length msk = length im"
  shows "process_tel c t ev tid w =
     (case hillas_parameters c (geometry (camera tel))
             (map (\<lambda>(x, b). if b then 0 else x) (zip im (invert_mask msk))) of
        Inl e \<Rightarrow> (Some e, ev, w)
      | Inr p \<Rightarrow>
          (case writer_write c (writer t) (camera_name (geometry (camera tel)))
                  [R0 (r0 ev), MC (mc ev), Hillas p] w of
             (r, w') \<Rightarrow> (r, ev, w')))"
proof -
  let ?cleaned = "map (\<lambda>(x, b). if b then 0 else x) (zip im (invert_mask msk))"
  have cp: "clean_and_parametrize c (geometry (camera tel)) (Some 0) [im] =
      (hillas_parameters c (geometry (camera tel)) ?cleaned, [im] @ [?cleaned])"
    using clean_and_parametrize_forward [of c "geometry (camera tel)" "[im]" 0 msk] assms(4,5)
    by simp
  have same: "with_image ev tid im = ev"
    using assms(2,3) by (rule with_image_same)
  show ?thesis
    by (simp add: process_tel_def assms(1,2,3) dl1_getitem_present cp same Let_def
        split: sum.splits prod.splits)
qed

lemma process_tel_write_failure:
  assumes "subarray_tel (subarray (event_source t)) tid = Some tel"
    and "dl1_tel (dl1 ev) tid = Some d" and "dl1_image d = Some im"
    and "tailcuts_clean c (geometry (camera tel)) (Some im) 10 5 = Inr msk"
    and "length msk = length im"
    and "hillas_parameters c (geometry (camera tel))
           (map (\<lambda>(x, b). if b then 0 else x) (zip im (invert_mask msk))) = Inr p"
    and "write_error c (rows_of w (filename (writer t))) (camera_name (geometry (camera tel)))
           [R0 (r0 ev), MC (mc ev), Hillas p] = Some e"
  shows "process_tel c t ev tid w = (Some e, ev, w)"
  using process_tel_forward [OF assms(1-5), of w] assms(6,7)
  by (simp add: writer_write_def)



lemma tel_loop_cleaned:
  "tel_loop c t ev tids w = (None, w') \<Longrightarrow> \<forall>tid\<in>set tids. cleaned_at_10_5 c t ev tid"
proof (induction tids arbitrary: w)
  case Nil
  then show ?case by simp
next
  case (Cons a tids)
  obtain r1 ev1 wa where step: "process_tel c t ev a w = (r1, ev1, wa)"
    by (cases "process_tel c t ev a w") auto
  from Cons.prems step have r1: "r1 = None" by (cases r1) simp_all
  from process_tel_success [OF step [unfolded r1]]
  have ev1: "ev1 = ev" and here: "cleaned_at_10_5 c t ev a"
    unfolding cleaned_at_10_5_def by blast+
  from Cons.prems step r1 ev1 have "tel_loop c t ev tids wa = (None, w')" by simp
  from Cons.IH [OF this] here show ?case by simp
qed

lemma event_loop_cleaned:
  "event_loop c t evs w = (None, w') \<Longrightarrow>
     \<forall>ev\<in>set evs. \<exists>ev'. calibrate c (calibrator t) ev = Inr ev' \<and>
       (\<forall>tid\<in>set (tels_with_data (dl0 ev')). cleaned_at_10_5 c t ev' tid)"
proof (induction evs arbitrary: w)
  case Nil
  then show ?case by simp
next
  case (Cons a evs)
  obtain r1 wa where step: "process_event c t a w = (r1, wa)"
    by (cases "process_event c t a w") auto
  from Cons.prems step have r1: "r1 = None" by (cases r1) simp_all
  from step r1 obtain ev' where cal: "calibrate c (calibrator t) a = Inr ev'"
    and loop: "tel_loop c t ev' (tels_with_data (dl0 ev')) w = (None, wa)"
    by (auto simp: process_event_def split: sum.splits)
  from tel_loop_cleaned [OF loop] cal
  have here: "\<exists>ev'. calibrate c (calibrator t) a = Inr ev' \<and>
       (\<forall>tid\<in>set (tels_with_data (dl0 ev')). cleaned_at_10_5 c t ev' tid)"
    by blast
  from Cons.prems step r1 have "event_loop c t evs wa = (None, w')" by simp
  from Cons.IH [OF this] here show ?case by simp
qed

lemma zeroed_by_mask:
  "map (\<lambda>(x, b). if b then 0 else x) (zip im (invert_mask msk)) =
     map (\<lambda>(x, m). if m then x else (0::real)) (zip im msk)"
  by (simp add: invert_mask_def zip_map2 case_prod_beta)


subsection \<open>The small dataset, evaluated\<close>

lemmas ex_defs = ex_collab_def ex_tool_def ex_source_def ex_subarray_def ex_event_def
  ex_world_def ex_config_def ex_rows_def ex_dl1_def ex_calibrated_def ex_world_open_def
  ex_world_done_def ex_collab_bad_def ex_collab_noclean_def ex_collab_nowrite_def
  ex_source_faint_def ex_dl1_faint_def ex_collab_faint_def ex_world_faint_def ex_collab_spec_def

lemmas tool_defs = run_def setup_tool_def HDF5TableWriter_def start_def tqdm_def py_invert_def
  process_event_def process_tel_def dl1_getitem_def clean_and_parametrize_def ndarray_copy_def
  setitem_bool_def invert_mask_def writer_write_def rows_of_def with_image_def finish_def
  writer_close_def

lemma ex_setup: "setup_tool ex_collab ex_config ex_world = (Inr ex_tool, ex_world_open)"
  by (simp add: setup_tool_def HDF5TableWriter_def ex_defs)

lemma ex_process_tel:
  "process_tel ex_collab ex_tool ex_calibrated 1 ex_world_open =
     (None, ex_calibrated,
      ex_world_open\<lparr>files := [''out.h5'' \<mapsto>
        [(''image_infos'', ''LSTCam'', [R0 1, MC 10, Hillas 12])]]\<rparr>)"
  by (simp add: tool_defs ex_defs fun_upd_twist)

lemma ex_start:
  "start ex_collab ex_tool ex_world_open =
     (None, ex_world_open\<lparr>files := [''out.h5'' \<mapsto> ex_rows]\<rparr>)"
  by (simp add: tool_defs ex_defs)

lemma ex_run: "run ex_collab ex_config ex_world = (None, ex_world_done)"
  by (simp add: tool_defs ex_defs)

lemma ex_setup_bad: "setup_tool ex_collab_bad ex_config ex_world = (Inr ex_tool, ex_world_open)"
  by (simp add: setup_tool_def HDF5TableWriter_def ex_defs)

lemma ex_run_bad:
  "run ex_collab_bad ex_config ex_world = (Some (Raised ''bad event''), ex_world_open)"
  by (simp add: tool_defs ex_defs)

lemma ex_run_faint:
  "run ex_collab_faint ex_config ex_world =
     (Some (Raised ''HillasParameterizationError''), ex_world_faint)"
  by (simp add: tool_defs ex_defs fun_upd_twist)

section \<open>The claims\<close>

text \<open>
  C1, as stated for every run, fails: when the parametrisation raises on the second
  telescope of an event, the run ends with one row written for an event with two telescopes
  with data.
\<close>

theorem run_row_count_counterexample:
  "run ex_collab_faint ex_config ex_world =
     (Some (Raised ''HillasParameterizationError''), ex_world_faint) \<and>
   length (rows_of ex_world_faint (outfile ex_config)) = 1 \<and>
   sum_list (map (tels_in_event ex_collab_faint \<lparr>calibrator_subarray = ex_subarray\<rparr>)
     (events ex_source_faint)) = 2"
  using ex_run_faint by (simp add: rows_of_def tels_in_event_def ex_defs)

text \<open>
  C1, amended. A run that completes leaves in the output file one row for every pair of a
  processed event and a telescope with data in it: the number of rows is the sum, over the
  events of the source, of the number of telescopes with data in the event.
\<close>

theorem run_row_count:
  assumes "run c cfg w = (None, w')" and "from_url c (infile cfg) = Inr src"
  shows "length (rows_of w' (outfile cfg)) =
           (\<Sum>ev\<leftarrow>events src. tels_in_event c \<lparr>calibrator_subarray = subarray src\<rparr> ev)"
proof -
  from assms(1) obtain t w1 w2 where
    su: "setup_tool c cfg w = (Inr t, w1)" and st: "start c t w1 = (None, w2)"
    and w': "w' = finish t w2"
    by (rule run_success)
  note s = setup_tool_success [OF su]
  have src: "event_source t = src" using s(1) assms(2) by simp
  have fn: "filename (writer t) = outfile cfg" using s(4) by simp
  have empty: "rows_of w1 (outfile cfg) = []" using s(6) by (simp add: rows_of_def)
  from st have "event_loop c t (events src) w1 = (None, w2)"
    by (simp add: start_event_loop src)
  from event_loop_rows [OF this] obtain new where
    "rows_of w2 (outfile cfg) = rows_of w1 (outfile cfg) @ new"
    "length new = (\<Sum>ev\<leftarrow>events src. tels_in_event c (calibrator t) ev)"
    unfolding fn by blast
  then show ?thesis
    using empty s(3) src by (simp add: w' rows_of_finish)
qed

theorem run_row_count_witness:
  "run ex_collab ex_config ex_world = (None, ex_world_done) \<and>
   from_url ex_collab (infile ex_config) = Inr ex_source \<and>
   length (rows_of (ex_world_done) (outfile ex_config)) = 3 \<and>
   (\<Sum>ev\<leftarrow>events ex_source.
      tels_in_event ex_collab \<lparr>calibrator_subarray = subarray ex_source\<rparr> ev) = 3"
proof -
  have h: "from_url ex_collab (infile ex_config) = Inr ex_source"
    by (simp add: ex_collab_def ex_config_def)
  have n: "length (rows_of (ex_world_done) (outfile ex_config)) = 3"
    by (simp add: rows_of_def ex_defs)
  from run_row_count [OF ex_run h] n ex_run h show ?thesis by simp
qed

text \<open>
  C2. For a telescope image that the cleaning function gives a mask of its length for, the
  image handed to the Hillas parametrisation is zero at every pixel outside the mask, and
  the outcome of the telescope step is the outcome of the parametrisation of that cleaned
  image: its failure, or the row written with its parameters.
\<close>

theorem hillas_on_cleaned_image:
  assumes "subarray_tel (subarray (event_source t)) tid = Some tel"
    and "dl1_tel (dl1 ev) tid = Some d" and "dl1_image d = Some im"
    and "tailcuts_clean c (geometry (camera tel)) (Some im) 10 5 = Inr msk"
    and "length msk = length im"
  shows "\<exists>cleaned. length cleaned = length im \<and>
           (\<forall>i<length cleaned. \<not> msk ! i \<longrightarrow> cleaned ! i = 0) \<and>
           process_tel c t ev tid w =
             (case hillas_parameters c (geometry (camera tel)) cleaned of
                Inl e \<Rightarrow> (Some e, ev, w)
              | Inr p \<Rightarrow>
                  (case writer_write c (writer t) (camera_name (geometry (camera tel)))
                          [R0 (r0 ev), MC (mc ev), Hillas p] w of
                     (r, w') \<Rightarrow> (r, ev, w')))"
proof -
  let ?cleaned = "map (\<lambda>(x, b). if b then 0 else x) (zip im (invert_mask msk))"
  have len: "length ?cleaned = length im"
    using assms(5) by (simp add: invert_mask_def)
  have zero: "\<forall>i<length ?cleaned. \<not> msk ! i \<longrightarrow> ?cleaned ! i = 0"
    using assms(5) by (simp add: invert_mask_def)
  note step = process_tel_forward [OF assms, of w]
  from len zero step show ?thesis by (intro exI [of _ ?cleaned] conjI)
qed

theorem hillas_on_cleaned_image_witness:
  "subarray_tel (subarray (event_source ex_tool)) 1 =
     Some \<lparr>camera = \<lparr>geometry = \<lparr>camera_name = ''LSTCam''\<rparr>\<rparr>\<rparr> \<and>
   dl1_tel (dl1 ex_calibrated) 1 = Some \<lparr>dl1_image = Some [12, 3, 7]\<rparr> \<and>
   dl1_image \<lparr>dl1_image = Some [12, 3, 7]\<rparr> = Some [12, 3, 7] \<and>
   tailcuts_clean ex_collab
     (geometry (camera \<lparr>camera = \<lparr>geometry = \<lparr>camera_name = ''LSTCam''\<rparr>\<rparr>\<rparr>))
     (Some [12, 3, 7]) 10 5 = Inr [True, False, False] \<and>
   length [True, False, False] = length [12, 3, 7::real] \<and>
   (\<exists>cleaned. length cleaned = length [12, 3, 7::real] \<and>
      (\<forall>i<length cleaned. \<not> [True, False, False] ! i \<longrightarrow> cleaned ! i = 0) \<and>
      process_tel ex_collab ex_tool ex_calibrated 1 ex_world_open =
        (case hillas_parameters ex_collab
                (geometry (camera \<lparr>camera = \<lparr>geometry = \<lparr>camera_name = ''LSTCam''\<rparr>\<rparr>\<rparr>))
                cleaned of
           Inl e \<Rightarrow> (Some e, ex_calibrated, ex_world_open)
         | Inr p \<Rightarrow>
             (case writer_write ex_collab (writer ex_tool)
                     (camera_name
                       (geometry (camera \<lparr>camera = \<lparr>geometry = \<lparr>camera_name = ''LSTCam''\<rparr>\<rparr>\<rparr>)))
                     [R0 (r0 ex_calibrated), MC (mc ex_calibrated), Hillas p] ex_world_open of
                (r, w') \<Rightarrow> (r, ex_calibrated, w'))))"
proof -
  have h1: "subarray_tel (subarray (event_source ex_tool)) 1 =
     Some \<lparr>camera = \<lparr>geometry = \<lparr>camera_name = ''LSTCam''\<rparr>\<rparr>\<rparr>"
    by (simp add: ex_defs)
  have h2: "dl1_tel (dl1 ex_calibrated) 1 = Some \<lparr>dl1_image = Some [12, 3, 7]\<rparr>"
    by (simp add: ex_defs)
  have h3: "dl1_image \<lparr>dl1_image = Some [12, 3, 7]\<rparr> = Some [12, 3, 7]"
    by simp
  have h4: "tailcuts_clean ex_collab
     (geometry (camera \<lparr>camera = \<lparr>geometry = \<lparr>camera_name = ''LSTCam''\<rparr>\<rparr>\<rparr>))
     (Some [12, 3, 7]) 10 5 = Inr [True, False, False]"
    by (simp add: ex_defs)
  have h5: "length [True, False, False] = length [12, 3, 7::real]"
    by simp
  from h1 h2 h3 h4 h5 hillas_on_cleaned_image [OF h1 h2 h3 h4 h5, of ex_world_open]
  show ?thesis by (intro conjI)
qed

text \<open>
  C3. The cleaning mask of every telescope image is the one \<open>tailcuts_clean\<close> returns for the
  picture threshold 10 and the boundary threshold 5. When \<open>start\<close> completes, the cleaning
  function has returned a mask at these thresholds for every telescope with data of every
  event. In a telescope step a failure of the cleaning function at these thresholds is the
  failure of the step, and a mask it returns there (of the length of the image) is the mask
  the parametrised image is cut by. No other thresholds are used: a cleaning function that
  agrees with the given one at 10 and 5 gives the same run.
\<close>

theorem cleaning_thresholds_fixed:
  "(start c t w = (None, w') \<longrightarrow>
      (\<forall>ev\<in>set (events (event_source t)). \<exists>ev'. calibrate c (calibrator t) ev = Inr ev' \<and>
         (\<forall>tid\<in>set (tels_with_data (dl0 ev')). \<exists>tel d im msk.
            subarray_tel (subarray (event_source t)) tid = Some tel \<and>
            dl1_tel (dl1 ev') tid = Some d \<and> dl1_image d = Some im \<and>
            tailcuts_clean c (geometry (camera tel)) (Some im) 10 5 = Inr msk))) \<and>
   (subarray_tel (subarray (event_source t)) tid = Some tel \<and> dl1_tel (dl1 ev) tid = Some d \<and>
    tailcuts_clean c (geometry (camera tel)) (dl1_image d) 10 5 = Inl e
      \<longrightarrow> process_tel c t ev tid w = (Some e, ev, w)) \<and>
   (subarray_tel (subarray (event_source t)) tid = Some tel \<and> dl1_tel (dl1 ev) tid = Some d \<and>
    dl1_image d = Some im \<and>
    tailcuts_clean c (geometry (camera tel)) (Some im) 10 5 = Inr msk \<and> length msk = length im
      \<longrightarrow> process_tel c t ev tid w =
            (case hillas_parameters c (geometry (camera tel))
                    (map (\<lambda>(x, m). if m then x else 0) (zip im msk)) of
               Inl e \<Rightarrow> (Some e, ev, w)
             | Inr p \<Rightarrow>
                 (case writer_write c (writer t) (camera_name (geometry (camera tel)))
                         [R0 (r0 ev), MC (mc ev), Hillas p] w of
                    (r, w') \<Rightarrow> (r, ev, w')))) \<and>
   ((\<forall>geom img. tc geom img 10 5 = tailcuts_clean c geom img 10 5)
      \<longrightarrow> start (c\<lparr>tailcuts_clean := tc\<rparr>) t w = start c t w)"
proof (intro conjI impI)
  assume "start c t w = (None, w')"
  then have "event_loop c t (events (event_source t)) w = (None, w')"
    by (simp add: start_event_loop)
  from event_loop_cleaned [OF this]
  show "\<forall>ev\<in>set (events (event_source t)). \<exists>ev'. calibrate c (calibrator t) ev = Inr ev' \<and>
         (\<forall>tid\<in>set (tels_with_data (dl0 ev')). \<exists>tel d im msk.
            subarray_tel (subarray (event_source t)) tid = Some tel \<and>
            dl1_tel (dl1 ev') tid = Some d \<and> dl1_image d = Some im \<and>
            tailcuts_clean c (geometry (camera tel)) (Some im) 10 5 = Inr msk)"
    unfolding cleaned_at_10_5_def .
next
  assume "subarray_tel (subarray (event_source t)) tid = Some tel \<and>
    dl1_tel (dl1 ev) tid = Some d \<and>
    tailcuts_clean c (geometry (camera tel)) (dl1_image d) 10 5 = Inl e"
  then show "process_tel c t ev tid w = (Some e, ev, w)"
    using process_tel_cleaning_failure [of t tid tel ev d c e w] by simp
next
  assume a: "subarray_tel (subarray (event_source t)) tid = Some tel \<and>
    dl1_tel (dl1 ev) tid = Some d \<and> dl1_image d = Some im \<and>
    tailcuts_clean c (geometry (camera tel)) (Some im) 10 5 = Inr msk \<and> length msk = length im"
  then have "process_tel c t ev tid w =
     (case hillas_parameters c (geometry (camera tel))
             (map (\<lambda>(x, b). if b then 0 else x) (zip im (invert_mask msk))) of
        Inl e \<Rightarrow> (Some e, ev, w)
      | Inr p \<Rightarrow>
          (case writer_write c (writer t) (camera_name (geometry (camera tel)))
                  [R0 (r0 ev), MC (mc ev), Hillas p] w of
             (r, w') \<Rightarrow> (r, ev, w')))"
    using process_tel_forward [of t tid tel ev d im c msk w] by simp
  then show "process_tel c t ev tid w =
            (case hillas_parameters c (geometry (camera tel))
                    (map (\<lambda>(x, m). if m then x else 0) (zip im msk)) of
               Inl e \<Rightarrow> (Some e, ev, w)
             | Inr p \<Rightarrow>
                 (case writer_write c (writer t) (camera_name (geometry (camera tel)))
                         [R0 (r0 ev), MC (mc ev), Hillas p] w of
                    (r, w') \<Rightarrow> (r, ev, w')))"
    by (simp only: zeroed_by_mask)
next
  assume a: "\<forall>geom img. tc geom img 10 5 = tailcuts_clean c geom img 10 5"
  have agree: "\<And>geom img. tc geom img 10 5 = tailcuts_clean c geom img 10 5"
    using a by simp
  have "start (c\<lparr>tailcuts_clean := tc\<rparr>) t w =
      event_loop (c\<lparr>tailcuts_clean := tc\<rparr>) t (events (event_source t)) w"
    by (rule start_event_loop)
  also have "\<dots> = event_loop c t (events (event_source t)) w"
    by (rule event_loop_thresholds [of tc c, OF agree])
  also have "\<dots> = start c t w"
    by (rule start_event_loop [symmetric])
  finally show "start (c\<lparr>tailcuts_clean := tc\<rparr>) t w = start c t w" .
qed

theorem cleaning_thresholds_fixed_witness:
  "(\<exists>ev'. calibrate ex_collab (calibrator ex_tool) (ex_event 1 [1, 2]) = Inr ev' \<and>
      (\<forall>tid\<in>set (tels_with_data (dl0 ev')). \<exists>tel d im msk.
         subarray_tel (subarray (event_source ex_tool)) tid = Some tel \<and>
         dl1_tel (dl1 ev') tid = Some d \<and> dl1_image d = Some im \<and>
         tailcuts_clean ex_collab (geometry (camera tel)) (Some im) 10 5 = Inr msk)) \<and>
   process_tel ex_collab_noclean ex_tool ex_calibrated 1 ex_world_open =
     (Some (Raised ''cleaning''), ex_calibrated, ex_world_open) \<and>
   process_tel ex_collab ex_tool ex_calibrated 1 ex_world_open =
     (case hillas_parameters ex_collab
             (geometry (camera \<lparr>camera = \<lparr>geometry = \<lparr>camera_name = ''LSTCam''\<rparr>\<rparr>\<rparr>))
             (map (\<lambda>(x, m). if m then x else 0) (zip [12, 3, 7] [True, False, False])) of
        Inl e \<Rightarrow> (Some e, ex_calibrated, ex_world_open)
      | Inr p \<Rightarrow>
          (case writer_write ex_collab (writer ex_tool)
                  (camera_name
                    (geometry (camera \<lparr>camera = \<lparr>geometry = \<lparr>camera_name = ''LSTCam''\<rparr>\<rparr>\<rparr>)))
                  [R0 (r0 ex_calibrated), MC (mc ex_calibrated), Hillas p] ex_world_open of
             (r, w') \<Rightarrow> (r, ex_calibrated, w'))) \<and>
   start (ex_collab\<lparr>tailcuts_clean := ex_tailcuts_10_5\<rparr>) ex_tool ex_world =
     start ex_collab ex_tool ex_world \<and>
   ex_tailcuts_10_5 \<lparr>camera_name = ''LSTCam''\<rparr> (Some [8]) 7 5 \<noteq>
     tailcuts_clean ex_collab \<lparr>camera_name = ''LSTCam''\<rparr> (Some [8]) 7 5"
proof (intro conjI)
  have m: "ex_event 1 [1, 2] \<in> set (events (event_source ex_tool))"
    by (simp add: ex_defs)
  show "\<exists>ev'. calibrate ex_collab (calibrator ex_tool) (ex_event 1 [1, 2]) = Inr ev' \<and>
      (\<forall>tid\<in>set (tels_with_data (dl0 ev')). \<exists>tel d im msk.
         subarray_tel (subarray (event_source ex_tool)) tid = Some tel \<and>
         dl1_tel (dl1 ev') tid = Some d \<and> dl1_image d = Some im \<and>
         tailcuts_clean ex_collab (geometry (camera tel)) (Some im) 10 5 = Inr msk)"
    by (rule cleaning_thresholds_fixed [THEN conjunct1, THEN mp, OF ex_start, THEN bspec, OF m])
  show "process_tel ex_collab_noclean ex_tool ex_calibrated 1 ex_world_open =
     (Some (Raised ''cleaning''), ex_calibrated, ex_world_open)"
    by (rule cleaning_thresholds_fixed [where tel = "\<lparr>camera = \<lparr>geometry = \<lparr>camera_name = ''LSTCam''\<rparr>\<rparr>\<rparr>"
          and d = "\<lparr>dl1_image = Some [12, 3, 7]\<rparr>",
          THEN conjunct2, THEN conjunct1, THEN mp])
      (simp add: ex_defs)
  show "process_tel ex_collab ex_tool ex_calibrated 1 ex_world_open =
     (case hillas_parameters ex_collab
             (geometry (camera \<lparr>camera = \<lparr>geometry = \<lparr>camera_name = ''LSTCam''\<rparr>\<rparr>\<rparr>))
             (map (\<lambda>(x, m). if m then x else 0) (zip [12, 3, 7] [True, False, False])) of
        Inl e \<Rightarrow> (Some e, ex_calibrated, ex_world_open)
      | Inr p \<Rightarrow>
          (case writer_write ex_collab (writer ex_tool)
                  (camera_name
                    (geometry (camera \<lparr>camera = \<lparr>geometry = \<lparr>camera_name = ''LSTCam''\<rparr>\<rparr>\<rparr>)))
                  [R0 (r0 ex_calibrated), MC (mc ex_calibrated), Hillas p] ex_world_open of
             (r, w') \<Rightarrow> (r, ex_calibrated, w')))"
    by (rule cleaning_thresholds_fixed [where d = "\<lparr>dl1_image = Some [12, 3, 7]\<rparr>",
          THEN conjunct2, THEN conjunct2, THEN conjunct1, THEN mp])
      (simp add: ex_defs)
  show "start (ex_collab\<lparr>tailcuts_clean := ex_tailcuts_10_5\<rparr>) ex_tool ex_world =
     start ex_collab ex_tool ex_world"
    by (rule cleaning_thresholds_fixed [THEN conjunct2, THEN conjunct2, THEN conjunct2, THEN mp])
      (simp add: ex_tailcuts_10_5_def)
  show "ex_tailcuts_10_5 \<lparr>camera_name = ''LSTCam''\<rparr> (Some [8]) 7 5 \<noteq>
     tailcuts_clean ex_collab \<lparr>camera_name = ''LSTCam''\<rparr> (Some [8]) 7 5"
    by (simp add: ex_tailcuts_10_5_def ex_collab_def)
qed

text \<open>
  C4. With the progress option set to true no progress bar is drawn: \<open>disable\<close> receives
  \<open>~True\<close>, the integer \<open>-2\<close>, which is true for tqdm as \<open>~False\<close> is. The run leaves the
  progress display as it found it.
\<close>

theorem progress_true_draws_no_bar:
  "py_invert True = - 2 \<and>
   progress_bar (snd (start c (t\<lparr>traits := (traits t)\<lparr>progress := True\<rparr>\<rparr>) w)) = progress_bar w"
proof
  show "py_invert True = - 2" by (simp add: py_invert_def)
next
  let ?t = "t\<lparr>traits := (traits t)\<lparr>progress := True\<rparr>\<rparr>"
  obtain r w' where res: "event_loop c ?t (events (event_source ?t)) w = (r, w')"
    by (cases "event_loop c ?t (events (event_source ?t)) w") auto
  have disable: "py_invert True = - 2"
    by (simp add: py_invert_def)
  have "start c ?t w = (r, w')"
    using res by (simp add: start_def tqdm_def disable)
  moreover have "progress_bar w' = progress_bar w"
    using event_loop_frame [OF res] by simp
  ultimately show "progress_bar (snd (start c ?t w)) = progress_bar w"
    by simp
qed

text \<open>
  C5, as stated, fails: when the calibrator raises on the first event, the run ends with
  that error and the output file is still open.
\<close>

theorem writer_left_open_counterexample:
  "run ex_collab_bad ex_config ex_world = (Some (Raised ''bad event''), ex_world_open) \<and>
   outfile ex_config \<in> open_files ex_world_open"
  using ex_run_bad by (simp add: ex_defs)

text \<open>
  C5, amended. A run that completes has closed the output table writer; a run that fails
  after \<open>setup\<close> has opened the writer ends with the writer still open.
\<close>

theorem writer_closed_on_completion:
  assumes "run c cfg w = (r, w')"
  shows "(r = None \<longrightarrow> outfile cfg \<notin> open_files w') \<and>
         (\<forall>t w1. r \<noteq> None \<and> setup_tool c cfg w = (Inr t, w1) \<longrightarrow> outfile cfg \<in> open_files w')"
proof (intro conjI impI allI)
  assume "r = None"
  with assms obtain t w1 w2 where
    su: "setup_tool c cfg w = (Inr t, w1)" and w': "w' = finish t w2"
    by (auto elim: run_success)
  from setup_tool_success(4) [OF su] show "outfile cfg \<notin> open_files w'"
    by (simp add: w' finish_def writer_close_def)
next
  fix t w1
  assume a: "r \<noteq> None \<and> setup_tool c cfg w = (Inr t, w1)"
  then have su: "setup_tool c cfg w = (Inr t, w1)" by simp
  obtain r2 w2 where st: "start c t w1 = (r2, w2)" by (cases "start c t w1") auto
  from a assms su st have w': "w' = w2"
    by (auto simp: run_def split: option.splits)
  from st have "event_loop c t (events (event_source t)) w1 = (r2, w2)"
    by (simp add: start_event_loop)
  from event_loop_frame [OF this] have "open_files w2 = open_files w1" by simp
  with setup_tool_success(6) [OF su] show "outfile cfg \<in> open_files w'"
    by (simp add: w')
qed

theorem writer_closed_on_completion_witness:
  "outfile ex_config \<notin> open_files (ex_world_done) \<and>
   outfile ex_config \<in>
     open_files (ex_world_open)"
  using writer_closed_on_completion [OF ex_run] writer_closed_on_completion [OF ex_run_bad]
    ex_setup_bad
  by simp

text \<open>
  C6. Running the tool again, on the files the first run left, gives the same outcome and
  leaves the same files: the output file is created anew, not appended to.
\<close>

theorem rerun_same_output:
  assumes "run c cfg w = (r, w')" and "files v = files w'"
  shows "\<exists>v'. run c cfg v = (r, v') \<and> files v' = files w'"
proof -
  consider (fail) e where "\<forall>v. setup_tool c cfg v = (Inl e, v)"
    | (ok) t where "filename (writer t) = outfile cfg"
        "\<forall>v. setup_tool c cfg v =
          (Inr t, v\<lparr>files := (files v)(outfile cfg \<mapsto> []),
                    open_files := insert (outfile cfg) (open_files v)\<rparr>)"
    using setup_tool_cases [of c cfg] by blast
  then show ?thesis
  proof cases
  case (fail e)
  then have "setup_tool c cfg w = (Inl e, w)" "setup_tool c cfg v = (Inl e, v)" by simp_all
  with assms(1) have "r = Some e" "w' = w" "run c cfg v = (Some e, v)"
    by (simp_all add: run_def)
  then show ?thesis using assms(2) by simp
next
  case (ok t)
  note su = ok(2) [rule_format]
  let ?out = "outfile cfg"
  let ?w1 = "w\<lparr>files := (files w)(?out \<mapsto> []), open_files := insert ?out (open_files w)\<rparr>"
  let ?v1 = "v\<lparr>files := (files v)(?out \<mapsto> []), open_files := insert ?out (open_files v)\<rparr>"
  obtain r2 w2 where st: "start c t ?w1 = (r2, w2)" by (cases "start c t ?w1") auto
  have rw: "r = r2" "files w' = files w2"
    using assms(1) su [of w] st
    by (auto simp: run_def finish_def writer_close_def split: option.splits)
  have loop: "event_loop c t (events (event_source t)) ?w1 = (r2, w2)"
    using st by (simp add: start_event_loop)
  from event_loop_frame [OF loop] have off: "\<And>p. p \<noteq> ?out \<Longrightarrow> files w2 p = files w p"
    by (simp add: ok(1))
  have same: "files ?v1 = files ?w1"
  proof
    fix p
    show "files ?v1 p = files ?w1 p"
      using off [of p] assms(2) rw(2) by (cases "p = ?out") simp_all
  qed
  from event_loop_files [OF same loop]
  have "start c t ?v1 = (r2, ?v1\<lparr>files := files w2\<rparr>)"
    by (simp add: start_event_loop)
  with su [of v] rw show ?thesis
    by (cases r2) (simp_all add: run_def finish_def writer_close_def)
qed
qed

theorem rerun_same_output_witness:
  "run ex_collab ex_config ex_world = (None, ex_world_done) \<and>
   (\<exists>v'. run ex_collab ex_config (ex_world_done) = (None, v') \<and>
      files v' = files (ex_world_done))"
  using ex_run rerun_same_output [OF ex_run refl]
  by (intro conjI)

text \<open>
  C7. No failure is caught: a failure to open the event source ends the run with that
  error; a failure of the calibrator, of the cleaning function or of the writer ends the
  telescope step or the event step with that error; the loops stop at the first failing
  step, and the run ends with its error.
\<close>

theorem failures_propagate:
  "(from_url c (infile cfg) = Inl e \<longrightarrow> run c cfg w = (Some e, w)) \<and>
   (setup_tool c cfg w = (Inr t, w1) \<and> events (event_source t) = evs1 @ ev # evs2 \<and>
    event_loop c t evs1 w1 = (None, w2) \<and> process_event c t ev w2 = (Some e, w3)
      \<longrightarrow> run c cfg w = (Some e, w3)) \<and>
   (calibrate c (calibrator t) ev = Inl e \<longrightarrow> process_event c t ev w = (Some e, w)) \<and>
   (calibrate c (calibrator t) ev = Inr ev1 \<and> tels_with_data (dl0 ev1) = tids1 @ tid # tids2 \<and>
    tel_loop c t ev1 tids1 w = (None, w2) \<and> process_tel c t ev1 tid w2 = (Some e, ev2, w3)
      \<longrightarrow> process_event c t ev w = (Some e, w3)) \<and>
   (subarray_tel (subarray (event_source t)) tid = Some tel \<and> dl1_tel (dl1 ev) tid = Some d \<and>
    tailcuts_clean c (geometry (camera tel)) (dl1_image d) 10 5 = Inl e
      \<longrightarrow> process_tel c t ev tid w = (Some e, ev, w)) \<and>
   (subarray_tel (subarray (event_source t)) tid = Some tel \<and> dl1_tel (dl1 ev) tid = Some d \<and>
    dl1_image d = Some im \<and>
    tailcuts_clean c (geometry (camera tel)) (Some im) 10 5 = Inr msk \<and>
    length msk = length im \<and>
    hillas_parameters c (geometry (camera tel))
      (map (\<lambda>(x, b). if b then 0 else x) (zip im (invert_mask msk))) = Inr p \<and>
    write_error c (rows_of w (filename (writer t))) (camera_name (geometry (camera tel)))
      [R0 (r0 ev), MC (mc ev), Hillas p] = Some e
      \<longrightarrow> process_tel c t ev tid w = (Some e, ev, w))"
proof (intro conjI impI)
  show "run c cfg w = (Some e, w)" if "from_url c (infile cfg) = Inl e"
    using that by (rule run_source_failure)
  show "run c cfg w = (Some e, w3)"
    if "setup_tool c cfg w = (Inr t, w1) \<and> events (event_source t) = evs1 @ ev # evs2 \<and>
        event_loop c t evs1 w1 = (None, w2) \<and> process_event c t ev w2 = (Some e, w3)"
    using that run_event_failure [of c cfg w t w1 evs1 ev evs2 w2 e w3] by simp
  show "process_event c t ev w = (Some e, w)" if "calibrate c (calibrator t) ev = Inl e"
    using that by (rule process_event_calibrate_failure)
  show "process_event c t ev w = (Some e, w3)"
    if "calibrate c (calibrator t) ev = Inr ev1 \<and> tels_with_data (dl0 ev1) = tids1 @ tid # tids2 \<and>
        tel_loop c t ev1 tids1 w = (None, w2) \<and> process_tel c t ev1 tid w2 = (Some e, ev2, w3)"
    using that process_event_tel_failure [of c t ev ev1 tids1 tid tids2 w w2 e ev2 w3] by simp
  show "process_tel c t ev tid w = (Some e, ev, w)"
    if "subarray_tel (subarray (event_source t)) tid = Some tel \<and> dl1_tel (dl1 ev) tid = Some d \<and>
        tailcuts_clean c (geometry (camera tel)) (dl1_image d) 10 5 = Inl e"
    using that process_tel_cleaning_failure [of t tid tel ev d c e w] by simp
  show "process_tel c t ev tid w = (Some e, ev, w)"
    if "subarray_tel (subarray (event_source t)) tid = Some tel \<and> dl1_tel (dl1 ev) tid = Some d \<and>
        dl1_image d = Some im \<and>
        tailcuts_clean c (geometry (camera tel)) (Some im) 10 5 = Inr msk \<and>
        length msk = length im \<and>
        hillas_parameters c (geometry (camera tel))
          (map (\<lambda>(x, b). if b then 0 else x) (zip im (invert_mask msk))) = Inr p \<and>
        write_error c (rows_of w (filename (writer t))) (camera_name (geometry (camera tel)))
          [R0 (r0 ev), MC (mc ev), Hillas p] = Some e"
    using that process_tel_write_failure [of t tid tel ev d im c msk p w e] by simp
qed

theorem failures_propagate_witness:
  "run ex_collab (ex_config\<lparr>infile := ''missing''\<rparr>) ex_world =
     (Some (Raised ''no file''), ex_world) \<and>
   run ex_collab_bad ex_config ex_world = (Some (Raised ''bad event''), ex_world_open) \<and>
   process_event ex_collab_bad ex_tool (ex_event 1 [1, 2]) ex_world_open =
     (Some (Raised ''bad event''), ex_world_open) \<and>
   process_event ex_collab_noclean ex_tool (ex_event 1 [1, 2]) ex_world_open =
     (Some (Raised ''cleaning''), ex_world_open) \<and>
   process_tel ex_collab_noclean ex_tool ex_calibrated 1 ex_world_open =
     (Some (Raised ''cleaning''), ex_calibrated, ex_world_open) \<and>
   process_tel ex_collab_nowrite ex_tool ex_calibrated 1 ex_world_open =
     (Some (Raised ''disk full''), ex_calibrated, ex_world_open)"
proof (intro conjI)
  show "run ex_collab (ex_config\<lparr>infile := ''missing''\<rparr>) ex_world =
     (Some (Raised ''no file''), ex_world)"
    by (rule failures_propagate [THEN conjunct1, THEN mp]) (simp add: ex_defs)
  show "run ex_collab_bad ex_config ex_world = (Some (Raised ''bad event''), ex_world_open)"
    by (rule failures_propagate [where t = ex_tool and ?w1.0 = ex_world_open and ?evs1.0 = "[]"
          and ev = "ex_event 1 [1, 2]" and ?evs2.0 = "[ex_event 2 [1]]" and ?w2.0 = ex_world_open,
          THEN conjunct2, THEN conjunct1, THEN mp])
      (simp add: tool_defs ex_defs)
  show "process_event ex_collab_bad ex_tool (ex_event 1 [1, 2]) ex_world_open =
     (Some (Raised ''bad event''), ex_world_open)"
    by (rule failures_propagate [THEN conjunct2, THEN conjunct2, THEN conjunct1, THEN mp])
      (simp add: ex_defs)
  show "process_event ex_collab_noclean ex_tool (ex_event 1 [1, 2]) ex_world_open =
     (Some (Raised ''cleaning''), ex_world_open)"
    by (rule failures_propagate [where ?ev1.0 = ex_calibrated and ?tids1.0 = "[]" and tid = 1
          and ?tids2.0 = "[2]" and ?w2.0 = ex_world_open and ?ev2.0 = ex_calibrated,
          THEN conjunct2, THEN conjunct2, THEN conjunct2, THEN conjunct1, THEN mp])
      (simp add: tool_defs ex_defs fun_upd_twist)
  show "process_tel ex_collab_noclean ex_tool ex_calibrated 1 ex_world_open =
     (Some (Raised ''cleaning''), ex_calibrated, ex_world_open)"
    by (rule failures_propagate [where tel = "\<lparr>camera = \<lparr>geometry = \<lparr>camera_name = ''LSTCam''\<rparr>\<rparr>\<rparr>"
          and d = "\<lparr>dl1_image = Some [12, 3, 7]\<rparr>",
          THEN conjunct2, THEN conjunct2, THEN conjunct2, THEN conjunct2, THEN conjunct1,
          THEN mp])
      (simp add: ex_defs)
  show "process_tel ex_collab_nowrite ex_tool ex_calibrated 1 ex_world_open =
     (Some (Raised ''disk full''), ex_calibrated, ex_world_open)"
    by (rule failures_propagate [where tel = "\<lparr>camera = \<lparr>geometry = \<lparr>camera_name = ''LSTCam''\<rparr>\<rparr>\<rparr>"
          and d = "\<lparr>dl1_image = Some [12, 3, 7]\<rparr>" and im = "[12, 3, 7]"
          and msk = "[True, False, False]" and p = 12,
          THEN conjunct2, THEN conjunct2, THEN conjunct2, THEN conjunct2, THEN conjunct2,
          THEN mp])
      (simp add: ex_defs invert_mask_def)
qed

text \<open>
  C8. Every row of the output file was written for a telescope with data of a processed
  event: it lies in the group \<open>image_infos\<close>, its table is named by the camera name of
  the geometry of that telescope, and it holds the raw data, the simulation truth and the
  Hillas parameters, in that order.
\<close>

theorem written_rows_keyed_by_camera:
  assumes "setup_tool c cfg w0 = (Inr t, w1)" and "start c t w1 = (r, w2)"
  shows "\<forall>row\<in>set (rows_of w2 (outfile cfg)).
           \<exists>ev\<in>set (events (event_source t)). \<exists>ev' tid tel p.
             calibrate c (calibrator t) ev = Inr ev' \<and>
             tid \<in> set (tels_with_data (dl0 ev')) \<and>
             subarray_tel (subarray (event_source t)) tid = Some tel \<and>
             row = (''image_infos'', camera_name (geometry (camera tel)),
                    [R0 (r0 ev'), MC (mc ev'), Hillas p])"
proof -
  note s = setup_tool_success [OF assms(1)]
  have fn: "filename (writer t) = outfile cfg" and gn: "group_name (writer t) = ''image_infos''"
    using s(4) by simp_all
  have empty: "rows_of w1 (outfile cfg) = []" using s(6) by (simp add: rows_of_def)
  from assms(2) have "event_loop c t (events (event_source t)) w1 = (r, w2)"
    by (simp add: start_event_loop)
  from event_loop_rows [OF this] obtain new where
    new: "rows_of w2 (outfile cfg) = rows_of w1 (outfile cfg) @ new"
    "\<forall>row\<in>set new. \<exists>ev\<in>set (events (event_source t)). event_row c t ev row"
    unfolding fn by blast
  show ?thesis
  proof (intro ballI)
    fix row
    assume "row \<in> set (rows_of w2 (outfile cfg))"
    then have "row \<in> set new" using new(1) empty by simp
    with new(2) obtain ev where ev: "ev \<in> set (events (event_source t))"
      and er: "event_row c t ev row"
      by (auto dest: bspec)
    from er obtain ev' tid tel p where
      f: "calibrate c (calibrator t) ev = Inr ev'" "tid \<in> set (tels_with_data (dl0 ev'))"
        "subarray_tel (subarray (event_source t)) tid = Some tel"
        "row = (group_name (writer t), camera_name (geometry (camera tel)),
                [R0 (r0 ev'), MC (mc ev'), Hillas p])"
      unfolding event_row_def tel_row_def by blast
    from f(4) have row: "row = (''image_infos'', camera_name (geometry (camera tel)),
                [R0 (r0 ev'), MC (mc ev'), Hillas p])"
      by (simp only: gn)
    from ev f(1) f(2) f(3) row
    show "\<exists>ev\<in>set (events (event_source t)). \<exists>ev' tid tel p.
             calibrate c (calibrator t) ev = Inr ev' \<and>
             tid \<in> set (tels_with_data (dl0 ev')) \<and>
             subarray_tel (subarray (event_source t)) tid = Some tel \<and>
             row = (''image_infos'', camera_name (geometry (camera tel)),
                    [R0 (r0 ev'), MC (mc ev'), Hillas p])"
      by (intro bexI [of _ ev] exI [of _ ev'] exI [of _ tid] exI [of _ tel] exI [of _ p] conjI)
  qed
qed

theorem written_rows_keyed_by_camera_witness:
  "setup_tool ex_collab ex_config ex_world = (Inr ex_tool, ex_world_open) \<and>
   start ex_collab ex_tool ex_world_open =
     (None, ex_world_open\<lparr>files := [''out.h5'' \<mapsto> ex_rows]\<rparr>) \<and>
   (''image_infos'', ''NectarCam'', [R0 1, MC 10, Hillas 11]) \<in>
     set (rows_of (ex_world_open\<lparr>files := [''out.h5'' \<mapsto> ex_rows]\<rparr>) (outfile ex_config)) \<and>
   (\<exists>ev\<in>set (events (event_source ex_tool)). \<exists>ev' tid tel p.
      calibrate ex_collab (calibrator ex_tool) ev = Inr ev' \<and>
      tid \<in> set (tels_with_data (dl0 ev')) \<and>
      subarray_tel (subarray (event_source ex_tool)) tid = Some tel \<and>
      (''image_infos'', ''NectarCam'', [R0 1, MC 10, Hillas (11::real)]) =
        (''image_infos'', camera_name (geometry (camera tel)),
         [R0 (r0 ev'), MC (mc ev'), Hillas p]))"
proof -
  have m: "(''image_infos'', ''NectarCam'', [R0 1, MC 10, Hillas 11]) \<in>
     set (rows_of (ex_world_open\<lparr>files := [''out.h5'' \<mapsto> ex_rows]\<rparr>) (outfile ex_config))"
    by (simp add: rows_of_def ex_defs)
  from ex_setup ex_start m
    written_rows_keyed_by_camera [OF ex_setup ex_start, THEN bspec, OF m]
  show ?thesis by (intro conjI)
qed

text \<open>
  C9. The mask of a cleaning function as the spec describes it has the length of the image,
  so with such a function the masked assignment of the telescope step never fails: the
  step reaches the parametrisation with a cleaned image of the same length.
\<close>

theorem mask_has_image_length:
  "length (spec_tailcuts_clean keep geom im p b) = length im \<and>
   ((\<forall>geom im p b. tailcuts_clean c geom (Some im) p b =
        Inr (spec_tailcuts_clean keep geom im p b)) \<longrightarrow>
      (\<exists>cleaned. length cleaned = length (s ! a) \<and>
         clean_and_parametrize c geom (Some a) s =
           (hillas_parameters c geom cleaned, s @ [cleaned])))"
proof (intro conjI impI)
  show "length (spec_tailcuts_clean keep geom im p b) = length im"
    by (simp add: spec_tailcuts_clean_def)
next
  assume tc: "\<forall>geom im p b. tailcuts_clean c geom (Some im) p b =
        Inr (spec_tailcuts_clean keep geom im p b)"
  let ?msk = "spec_tailcuts_clean keep geom (s ! a) 10 5"
  let ?cleaned = "map (\<lambda>(x, b). if b then 0 else x) (zip (s ! a) (invert_mask ?msk))"
  have len: "length ?msk = length (s ! a)" by (simp add: spec_tailcuts_clean_def)
  have "tailcuts_clean c geom (Some (s ! a)) 10 5 = Inr ?msk" using tc by simp
  from clean_and_parametrize_forward [OF this len]
  have "clean_and_parametrize c geom (Some a) s =
      (hillas_parameters c geom ?cleaned, s @ [?cleaned])" .
  moreover have "length ?cleaned = length (s ! a)"
    using len by (simp add: invert_mask_def)
  ultimately show "\<exists>cleaned. length cleaned = length (s ! a) \<and>
         clean_and_parametrize c geom (Some a) s =
           (hillas_parameters c geom cleaned, s @ [cleaned])"
    by (intro exI [of _ ?cleaned] conjI)
qed

theorem mask_has_image_length_witness:
  "length (spec_tailcuts_clean ex_keep \<lparr>camera_name = ''LSTCam''\<rparr> [12, 3, 7] 10 5) =
     length [12, 3, 7::real] \<and>
   (\<exists>cleaned. length cleaned = length ([[12, 3, 7::real]] ! 0) \<and>
      clean_and_parametrize ex_collab_spec \<lparr>camera_name = ''LSTCam''\<rparr> (Some 0) [[12, 3, 7]] =
      (hillas_parameters ex_collab_spec \<lparr>camera_name = ''LSTCam''\<rparr> cleaned,
       [[12, 3, 7]] @ [cleaned]))"
proof -
  have h: "\<forall>geom im p b. tailcuts_clean ex_collab_spec geom (Some im) p b =
        Inr (spec_tailcuts_clean ex_keep geom im p b)"
    by (simp add: ex_collab_spec_def)
  note w = mask_has_image_length [of ex_keep "\<lparr>camera_name = ''LSTCam''\<rparr>" "[12, 3, 7]" 10 5
      ex_collab_spec "[[12, 3, 7]]" 0]
  from w [THEN conjunct1] w [THEN conjunct2, THEN mp, OF h] show ?thesis by (intro conjI)
qed

text \<open>
  C10. The telescope step leaves the event as it was, the image array of its dl1 container
  included: the masked assignment changes a copy. With a mask of the length of the image,
  the array handed to the parametrisation holds, at every pixel, the intensity of the image
  where the mask holds and zero elsewhere.
\<close>

theorem cleaning_works_on_copy:
  assumes "dl1_tel (dl1 ev) tid = Some d"
  shows "(process_tel c t ev tid w = (r, ev', w') \<longrightarrow> ev' = ev) \<and>
    (subarray_tel (subarray (event_source t)) tid = Some tel \<and> dl1_image d = Some im \<and>
     tailcuts_clean c (geometry (camera tel)) (Some im) 10 5 = Inr msk \<and> length msk = length im
       \<longrightarrow> (\<exists>cleaned. length cleaned = length im \<and>
              (\<forall>i<length im. cleaned ! i = (if msk ! i then im ! i else 0)) \<and>
              process_tel c t ev tid w =
                (case hillas_parameters c (geometry (camera tel)) cleaned of
                   Inl e \<Rightarrow> (Some e, ev, w)
                 | Inr p \<Rightarrow>
                     (case writer_write c (writer t) (camera_name (geometry (camera tel)))
                             [R0 (r0 ev), MC (mc ev), Hillas p] w of
                        (r, w') \<Rightarrow> (r, ev, w')))))"
proof (intro conjI impI)
  assume "process_tel c t ev tid w = (r, ev', w')"
  then show "ev' = ev" using assms by (rule process_tel_present)
next
  assume a: "subarray_tel (subarray (event_source t)) tid = Some tel \<and> dl1_image d = Some im \<and>
     tailcuts_clean c (geometry (camera tel)) (Some im) 10 5 = Inr msk \<and> length msk = length im"
  let ?cleaned = "map (\<lambda>(x, b). if b then 0 else x) (zip im (invert_mask msk))"
  from a have len: "length ?cleaned = length im"
    by (simp add: invert_mask_def)
  from a have pt: "\<forall>i<length im. ?cleaned ! i = (if msk ! i then im ! i else 0)"
    by (simp add: invert_mask_def)
  from a assms have step: "process_tel c t ev tid w =
     (case hillas_parameters c (geometry (camera tel)) ?cleaned of
        Inl e \<Rightarrow> (Some e, ev, w)
      | Inr p \<Rightarrow>
          (case writer_write c (writer t) (camera_name (geometry (camera tel)))
                  [R0 (r0 ev), MC (mc ev), Hillas p] w of
             (r, w') \<Rightarrow> (r, ev, w')))"
    using process_tel_forward [of t tid tel ev d im c msk w] by simp
  from len pt step
  show "\<exists>cleaned. length cleaned = length im \<and>
              (\<forall>i<length im. cleaned ! i = (if msk ! i then im ! i else 0)) \<and>
              process_tel c t ev tid w =
                (case hillas_parameters c (geometry (camera tel)) cleaned of
                   Inl e \<Rightarrow> (Some e, ev, w)
                 | Inr p \<Rightarrow>
                     (case writer_write c (writer t) (camera_name (geometry (camera tel)))
                             [R0 (r0 ev), MC (mc ev), Hillas p] w of
                        (r, w') \<Rightarrow> (r, ev, w')))"
    by (intro exI [of _ ?cleaned] conjI)
qed

theorem cleaning_works_on_copy_witness:
  "dl1_tel (dl1 ex_calibrated) 1 = Some \<lparr>dl1_image = Some [12, 3, 7]\<rparr> \<and>
   process_tel ex_collab ex_tool ex_calibrated 1 ex_world_open =
     (None, ex_calibrated,
      ex_world_open\<lparr>files := [''out.h5'' \<mapsto>
        [(''image_infos'', ''LSTCam'', [R0 1, MC 10, Hillas 12])]]\<rparr>) \<and>
   ex_calibrated = ex_calibrated \<and>
   (\<exists>cleaned. length cleaned = length [12, 3, 7::real] \<and>
      (\<forall>i<length [12, 3, 7::real].
         cleaned ! i = (if [True, False, False] ! i then [12, 3, 7] ! i else 0)) \<and>
      process_tel ex_collab ex_tool ex_calibrated 1 ex_world_open =
        (case hillas_parameters ex_collab
                (geometry (camera \<lparr>camera = \<lparr>geometry = \<lparr>camera_name = ''LSTCam''\<rparr>\<rparr>\<rparr>))
                cleaned of
           Inl e \<Rightarrow> (Some e, ex_calibrated, ex_world_open)
         | Inr p \<Rightarrow>
             (case writer_write ex_collab (writer ex_tool)
                     (camera_name
                       (geometry (camera \<lparr>camera = \<lparr>geometry = \<lparr>camera_name = ''LSTCam''\<rparr>\<rparr>\<rparr>)))
                     [R0 (r0 ex_calibrated), MC (mc ex_calibrated), Hillas p] ex_world_open of
                (r, w') \<Rightarrow> (r, ex_calibrated, w'))))"
proof -
  have h: "dl1_tel (dl1 ex_calibrated) 1 = Some \<lparr>dl1_image = Some [12, 3, 7]\<rparr>"
    by (simp add: ex_defs)
  have g: "subarray_tel (subarray (event_source ex_tool)) 1 =
       Some \<lparr>camera = \<lparr>geometry = \<lparr>camera_name = ''LSTCam''\<rparr>\<rparr>\<rparr> \<and>
     dl1_image \<lparr>dl1_image = Some [12, 3, 7]\<rparr> = Some [12, 3, 7] \<and>
     tailcuts_clean ex_collab
       (geometry (camera \<lparr>camera = \<lparr>geometry = \<lparr>camera_name = ''LSTCam''\<rparr>\<rparr>\<rparr>))
       (Some [12, 3, 7]) 10 5 = Inr [True, False, False] \<and>
     length [True, False, False] = length [12, 3, 7::real]"
    by (simp add: ex_defs)
  note w = cleaning_works_on_copy [where w = ex_world_open, OF h]
  from h ex_process_tel w [THEN conjunct1, THEN mp, OF ex_process_tel]
    w [THEN conjunct2, THEN mp, OF g]
  show ?thesis by (intro conjI)
qed

end
